theory Spec2Isabelle
  imports Complex_Main
begin

section \<open>The blockwise feature matrix cache (OpFeatureMatrixCache)\<close>

text \<open>
  A shallow embedding of \<^verbatim>\<open>lazyflow/operators/opFeatureMatrixCache.py\<close>.
  The operator is run sequentially: a request pool runs its requests one after the other,
  in the order in which they were added. Coordinates, shapes and block identities are
  lists of naturals (Python tuples). Exceptions are values of type \<open>error\<close>.
\<close>

subsection \<open>Errors, arrays, slots\<close>

datatype error =
    AssertionError
  | ShapesDoNotMatch "nat list" "nat list"
  | IndexError
  | ValueError
  | TypeError
  | RequestError nat

text \<open>
  \<open>ShapesDoNotMatch f l\<close> is the AssertionError of \<open>setupOutputs\<close> whose message is
  "FeatureImage and LabelImage shapes do not match: f vs l". \<open>RequestError n\<close> is any
  exception raised by an upstream operator while it serves a request.
\<close>

type_synonym roi = "nat list \<times> nat list"

text \<open>
  A 2D ndarray: numpy keeps the number of columns of a matrix with no rows, so the
  record keeps it too. Each element of \<open>rows\<close> has \<open>ncols\<close> entries.
\<close>

record matrix =
  ncols :: nat
  rows :: "real list list"

text \<open>
  An input slot: its meta data and the request \<open>slot(start, stop).wait()\<close>. The array
  that a request returns has the shape \<open>stop - start\<close> (lazyflow allocates it), so the
  result is modelled by its element function, from an index relative to \<open>start\<close>.
\<close>

record 'a input_slot =
  meta_axiskeys :: string
  meta_shape :: "nat list"
  wait :: "nat list \<Rightarrow> nat list \<Rightarrow> error + (nat list \<Rightarrow> 'a)"

record upstream =
  FeatureImage_in :: "real input_slot"
  LabelImage_in :: "nat input_slot"

datatype slot =
  FeatureImage | LabelImage | NonZeroLabelBlocks | LabelAndFeatureMatrix | ProgressSignal

text \<open>\<open>setDirty()\<close> without a region: the whole slot is dirty.\<close>

datatype dirty_notice = EntireSlot

text \<open>
  The mutable members of the operator. \<open>dirty_blocks\<close> is a Python set and
  \<open>blockwise_feature_matrices\<close> and \<open>block_locks\<close> are dicts; they are lists here,
  read in the order of the list (a set is read without its duplicates), so that the
  iteration order of the source is a definite one. A lock carries no data in a
  sequential run, so \<open>block_locks\<close> keeps the keys only. \<open>output_dirty\<close> collects the
  \<open>setDirty\<close> calls made on the output slot LabelAndFeatureMatrix.
\<close>

record op_state =
  blockshape :: "nat list option"
  blockwise_feature_matrices :: "(nat list \<times> matrix) list"
  dirty_blocks :: "nat list list"
  block_locks :: "nat list list"
  LabelAndFeatureMatrix_meta_shape :: "nat list option"
  ProgressSignal_meta_shape :: "nat list option"
  output_dirty :: "dirty_notice list"

definition init_state :: op_state where
  "init_state = \<lparr>blockshape = None, blockwise_feature_matrices = [], dirty_blocks = [],
     block_locks = [], LabelAndFeatureMatrix_meta_shape = None,
     ProgressSignal_meta_shape = None, output_dirty = []\<rparr>"

subsection \<open>Python containers\<close>

text \<open>\<open>d[k] = v\<close>: a key that is present keeps its place, a new key goes last.\<close>

fun dict_set :: "'k \<Rightarrow> 'v \<Rightarrow> ('k \<times> 'v) list \<Rightarrow> ('k \<times> 'v) list" where
  "dict_set k v [] = [(k, v)]"
| "dict_set k v (p # ps) = (if fst p = k then (k, v) # ps else p # dict_set k v ps)"

definition dict_keys :: "('k \<times> 'v) list \<Rightarrow> 'k list" where
  "dict_keys d = map fst d"

definition dict_values :: "('k \<times> 'v) list \<Rightarrow> 'v list" where
  "dict_values d = map snd d"

text \<open>\<open>s.update(xs)\<close>, \<open>len(s)\<close> and \<open>s.remove(x)\<close> on a set kept as a list.\<close>

definition set_update :: "'a list \<Rightarrow> 'a list \<Rightarrow> 'a list" where
  "set_update s xs = s @ filter (\<lambda>x. x \<notin> set s) (remdups xs)"

definition set_len :: "'a list \<Rightarrow> nat" where
  "set_len s = length (remdups s)"

subsection \<open>The block grid (lazyflow.roi)\<close>

text \<open>
  Modelled from the spec: \<^verbatim>\<open>lazyflow.roi.getBlockBounds\<close> is not among the sources.
  The spec: "returns the block's extent clipped to the array's bounds (edge blocks are
  smaller than interior blocks)"; "errors only from malformed input (negative or
  zero-length shapes) and must fail fast".
\<close>

definition getBlockBounds :: "nat list \<Rightarrow> nat list \<Rightarrow> nat list \<Rightarrow> error + roi" where
  "getBlockBounds dataset_shape block_shape block_start =
     (if length block_shape \<noteq> length dataset_shape
         \<or> length block_start \<noteq> length dataset_shape
         \<or> 0 \<in> set block_shape \<or> 0 \<in> set dataset_shape
      then Inl AssertionError
      else Inr (block_start,
                map2 min (map2 (+) block_start block_shape) dataset_shape))"

text \<open>
  Modelled from the spec: \<^verbatim>\<open>lazyflow.roi.getIntersectingBlocks\<close> is not among the
  sources. The spec: "returns every block whose axis-aligned extent overlaps the given
  region; the computation is a per-axis floor/ceil division of the region's start/stop
  by the block length". The blocks are listed in row-major order.
\<close>

definition axis_block_starts :: "nat \<Rightarrow> nat \<Rightarrow> nat \<Rightarrow> nat list" where
  "axis_block_starts b start stop = map (\<lambda>i. i * b) [start div b ..< (stop + b - 1) div b]"

definition getIntersectingBlocks :: "nat list \<Rightarrow> roi \<Rightarrow> error + nat list list" where
  "getIntersectingBlocks block_shape r =
     (if length (fst r) \<noteq> length block_shape \<or> length (snd r) \<noteq> length block_shape
         \<or> 0 \<in> set block_shape
      then Inl AssertionError
      else Inr (product_lists
             (map (\<lambda>(b, start, stop). axis_block_starts b start stop)
                  (zip block_shape (zip (fst r) (snd r))))))"

subsection \<open>numpy\<close>

text \<open>All indices of an array of the given shape, in row-major (C) order.\<close>

definition indices :: "nat list \<Rightarrow> nat list list" where
  "indices shp = product_lists (map (\<lambda>n. [0..<n]) shp)"

text \<open>
  \<open>numpy.nonzero\<close>: one index array per axis, the nonzero elements in row-major order.
  numpy reads a 0-dimensional array as an array of one element along one axis.
\<close>

definition numpy_nonzero :: "nat list \<Rightarrow> (nat list \<Rightarrow> nat) \<Rightarrow> nat list list" where
  "numpy_nonzero shp a =
     (let pts = filter (\<lambda>p. a p \<noteq> 0) (indices shp)
      in if shp = [] then [map (\<lambda>p. 0) pts]
         else map (\<lambda>k. map (\<lambda>p. p ! k) pts) [0..<length shp])"

text \<open>\<open>numpy.transpose\<close> of a tuple of index arrays of one length: the list of points.\<close>

definition points_of :: "nat list list \<Rightarrow> nat list list" where
  "points_of positions =
     (case positions of [] \<Rightarrow> []
      | ax # axs \<Rightarrow> map (\<lambda>i. map (\<lambda>a. a ! i) positions) [0..<length ax])"

text \<open>
  \<open>a[positions]\<close> where the index arrays cover every axis of \<open>a\<close> but the last one, of
  extent \<open>c\<close>: one row of \<open>c\<close> entries per point.
\<close>

definition take_points :: "(nat list \<Rightarrow> 'a) \<Rightarrow> nat \<Rightarrow> nat list list \<Rightarrow> 'a list list" where
  "take_points a c positions = map (\<lambda>p. map (\<lambda>ch. a (p @ [ch])) [0..<c]) (points_of positions)"

text \<open>\<open>numpy.concatenate(ms, axis=0)\<close> of a list of matrices that is not empty.\<close>

definition concatenate_axis0 :: "matrix list \<Rightarrow> error + matrix" where
  "concatenate_axis0 ms =
     (case ms of [] \<Rightarrow> Inl ValueError
      | m # ms' \<Rightarrow>
          if \<forall>m' \<in> set ms'. ncols m' = ncols m
          then Inr \<lparr>ncols = ncols m, rows = concat (map rows ms)\<rparr>
          else Inl ValueError)"

text \<open>\<open>numpy.concatenate((a, b), axis=1)\<close> of two matrices.\<close>

definition concatenate_axis1 :: "matrix \<Rightarrow> matrix \<Rightarrow> error + matrix" where
  "concatenate_axis1 a b =
     (if length (rows a) \<noteq> length (rows b) then Inl ValueError
      else Inr \<lparr>ncols = ncols a + ncols b, rows = map2 (@) (rows a) (rows b)\<rparr>)"

subsection \<open>The operator\<close>

definition MAX_BLOCK_PIXELS :: nat where
  "MAX_BLOCK_PIXELS = 1000000"

text \<open>
  \<open>setupOutputs\<close>. \<^verbatim>\<open>lazyflow.roi.determineBlockShape\<close> is not among the sources and is
  a parameter. \<open>xs[-1]\<close> of an empty sequence raises IndexError.
\<close>

definition setupOutputs ::
  "(nat list \<Rightarrow> nat \<Rightarrow> error + nat list) \<Rightarrow> upstream \<Rightarrow> op_state \<Rightarrow> (error + unit) \<times> op_state"
where
  "setupOutputs determineBlockShape env st =
     (let F = FeatureImage_in env; L = LabelImage_in env in
      if meta_axiskeys F = [] then (Inl IndexError, st)
      else if last (meta_axiskeys F) \<noteq> CHR ''c'' then (Inl AssertionError, st)
      else if meta_axiskeys L = [] then (Inl IndexError, st)
      else if last (meta_axiskeys L) \<noteq> CHR ''c'' then (Inl AssertionError, st)
      else if meta_shape L = [] then (Inl IndexError, st)
      else if last (meta_shape L) \<noteq> 1 then (Inl AssertionError, st)
      else if butlast (meta_shape F) \<noteq> butlast (meta_shape L)
        then (Inl (ShapesDoNotMatch (meta_shape F) (meta_shape L)), st)
      else
        let st1 = st\<lparr>LabelAndFeatureMatrix_meta_shape := Some [1],
                     ProgressSignal_meta_shape := Some [1]\<rparr>
        in case determineBlockShape (meta_shape L) MAX_BLOCK_PIXELS of
             Inl e \<Rightarrow> (Inl e, st1)
           | Inr bs \<Rightarrow> (Inr (), st1\<lparr>blockshape := Some bs\<rparr>))"

text \<open>
  \<open>_extract_feature_matrix\<close>. \<open>lshape\<close> is the shape of the label array fetched.
  \<open>labels[...,0]\<close> needs a last axis that is not empty. Where the label roi has the
  channel axis only, \<open>labels[label_positions]\<close> has one dimension and the final
  \<open>concatenate\<close> raises ValueError.
\<close>

definition extract_feature_matrix :: "upstream \<Rightarrow> roi \<Rightarrow> error + matrix" where
  "extract_feature_matrix env label_roi =
     (if meta_shape (FeatureImage_in env) = [] then Inl IndexError
      else
        let num_feature_channels = last (meta_shape (FeatureImage_in env)) in
        (case wait (LabelImage_in env) (fst label_roi) (snd label_roi) of
          Inl e \<Rightarrow> Inl e
        | Inr labels \<Rightarrow>
            let lshape = map2 (-) (snd label_roi) (fst label_roi) in
            if lshape = [] \<or> last lshape = 0 then Inl IndexError
            else
              let label_positions =
                    numpy_nonzero (butlast lshape) (\<lambda>p. labels (p @ [0]));
                  labels_matrix =
                    \<lparr>ncols = last lshape,
                     rows = take_points (\<lambda>p. real (labels p)) (last lshape) label_positions\<rparr>
              in
              if length label_positions = 0 \<or> length (hd label_positions) = 0
              then Inr \<lparr>ncols = 1 + num_feature_channels, rows = []\<rparr>
              else
                let bounding_box_start = map (\<lambda>ax. Min (set ax)) label_positions;
                    bounding_box_stop = map (\<lambda>ax. 1 + Max (set ax)) label_positions;
                    feature_positions =
                      map2 (\<lambda>ax s. map (\<lambda>x. x - s) ax) label_positions bounding_box_start;
                    feature_roi_start = bounding_box_start @ [0];
                    feature_roi_stop = bounding_box_stop @ [num_feature_channels]
                in
                (case wait (FeatureImage_in env) feature_roi_start feature_roi_stop of
                   Inl e \<Rightarrow> Inl e
                 | Inr features \<Rightarrow>
                     let features_matrix =
                           \<lparr>ncols = num_feature_channels,
                            rows = take_points features num_feature_channels feature_positions\<rparr>
                     in if butlast lshape = [] then Inl ValueError
                        else concatenate_axis1 labels_matrix features_matrix)))"

text \<open>
  \<open>_update_block\<close>. The lock of the block is created first; the rest runs under it.
  A \<open>_blockshape\<close> that is still None makes \<open>getBlockBounds\<close> raise TypeError.
\<close>

definition update_block :: "upstream \<Rightarrow> nat list \<Rightarrow> op_state \<Rightarrow> (error + unit) \<times> op_state" where
  "update_block env block_start st =
     (let st1 = (if block_start \<notin> set (block_locks st)
                 then st\<lparr>block_locks := block_locks st @ [block_start]\<rparr> else st)
      in
      if block_start \<notin> set (dirty_blocks st1) then (Inr (), st1)
      else
        case blockshape st1 of
          None \<Rightarrow> (Inl TypeError, st1)
        | Some bs \<Rightarrow>
            (case getBlockBounds (meta_shape (LabelImage_in env)) bs block_start of
               Inl e \<Rightarrow> (Inl e, st1)
             | Inr block_roi \<Rightarrow>
                 (case extract_feature_matrix env block_roi of
                    Inl e \<Rightarrow> (Inl e, st1)
                  | Inr labels_and_features_matrix \<Rightarrow>
                      (Inr (),
                       st1\<lparr>blockwise_feature_matrices :=
                              dict_set block_start labels_and_features_matrix
                                (blockwise_feature_matrices st1),
                           dirty_blocks := removeAll block_start (dirty_blocks st1)\<rparr>))))"

text \<open>\<open>update_progress\<close>, the callback of \<open>execute\<close>, run when a request has finished.\<close>

definition update_progress :: "nat \<Rightarrow> op_state \<Rightarrow> real" where
  "update_progress num_dirty_blocks st =
     95 * (real num_dirty_blocks - real (set_len (dirty_blocks st))) / real num_dirty_blocks"

text \<open>
  Modelled from the spec: \<^verbatim>\<open>lazyflow.request.RequestPool\<close> is not among the sources.
  The spec: every task of the batch runs, a failed one does not cancel the others, and
  the error surfaces once all have finished ("fail-together-at-end"); the progress
  callback runs as each task completes, successfully or as a no-op. The result is the
  progress values reported, the errors raised, and the state.
\<close>

fun run_pool ::
  "upstream \<Rightarrow> nat \<Rightarrow> nat list list \<Rightarrow> op_state \<Rightarrow> real list \<times> error list \<times> op_state"
where
  "run_pool env n [] st = ([], [], st)"
| "run_pool env n (b # bs) st =
     (case update_block env b st of
        (Inl e, st1) \<Rightarrow>
          (case run_pool env n bs st1 of (evs, errs, st2) \<Rightarrow> (evs, e # errs, st2))
      | (Inr u, st1) \<Rightarrow>
          (case run_pool env n bs st1 of
             (evs, errs, st2) \<Rightarrow> (update_progress n st1 # evs, errs, st2)))"

text \<open>
  \<open>execute\<close>: the values sent to the progress signal, the matrix stored in \<open>result[0]\<close>
  or the exception raised, and the state.
\<close>

definition execute :: "upstream \<Rightarrow> slot \<Rightarrow> op_state \<Rightarrow> real list \<times> (error + matrix) \<times> op_state" where
  "execute env slt st =
     (if slt \<noteq> LabelAndFeatureMatrix then ([], Inl AssertionError, st)
      else
        let num_dirty_blocks = set_len (dirty_blocks st) in
        case run_pool env num_dirty_blocks (remdups (dirty_blocks st)) st of
          (evs, e # errs, st1) \<Rightarrow> (0 # evs, Inl e, st1)
        | (evs, [], st1) \<Rightarrow>
            (case (if blockwise_feature_matrices st1 \<noteq> []
                   then concatenate_axis0 (dict_values (blockwise_feature_matrices st1))
                   else Inr \<lparr>ncols = 0, rows = []\<rparr>) of
               Inl e \<Rightarrow> (0 # evs, Inl e, st1)
             | Inr total_feature_matrix \<Rightarrow>
                 (0 # evs @ [100], Inr total_feature_matrix, st1)))"

text \<open>\<open>propagateDirty\<close>. \<open>roi.start[-1] = 0\<close> raises IndexError on an empty roi.\<close>

definition propagateDirty :: "slot \<Rightarrow> roi \<Rightarrow> op_state \<Rightarrow> error + op_state" where
  "propagateDirty slt r st =
     (if slt = NonZeroLabelBlocks then Inr st
      else if \<not> (slt = FeatureImage \<or> slt = LabelImage) then Inl AssertionError
      else if fst r = [] \<or> snd r = [] then Inl IndexError
      else
        let r1 = (butlast (fst r) @ [0], butlast (snd r) @ [1]) in
        case blockshape st of
          None \<Rightarrow> Inl TypeError
        | Some bs \<Rightarrow>
            (case getIntersectingBlocks bs r1 of
               Inl e \<Rightarrow> Inl e
             | Inr block_starts \<Rightarrow>
                 Inr (st\<lparr>dirty_blocks := set_update (dirty_blocks st) block_starts,
                         output_dirty := output_dirty st @ [EntireSlot]\<rparr>)))"

subsection \<open>An array held in memory as an upstream feed\<close>

text \<open>
  A feed that serves every request inside its shape from one array, and refuses the
  others.
\<close>

definition array_feed :: "string \<Rightarrow> nat list \<Rightarrow> (nat list \<Rightarrow> 'a) \<Rightarrow> 'a input_slot" where
  "array_feed axes shp img =
     \<lparr>meta_axiskeys = axes, meta_shape = shp,
      wait = (\<lambda>start stop.
        if length start = length shp \<and> length stop = length shp
           \<and> list_all2 (\<le>) start stop \<and> list_all2 (\<le>) stop shp
        then Inr (\<lambda>idx. img (map2 (+) start idx))
        else Inl (RequestError 0))\<rparr>"

subsection \<open>Notions used by the properties\<close>

text \<open>A block has a matrix in the cache; a block is dirty or has a matrix.\<close>

definition stored :: "op_state \<Rightarrow> nat list \<Rightarrow> bool" where
  "stored st b \<longleftrightarrow> b \<in> set (dict_keys (blockwise_feature_matrices st))"

definition covered :: "op_state \<Rightarrow> nat list \<Rightarrow> bool" where
  "covered st b \<longleftrightarrow> b \<in> set (dirty_blocks st) \<or> stored st b"

text \<open>
  The operations on the cache, each with the feeds as they are when it runs. An
  invalidation that raises leaves the operator as it was.
\<close>

datatype operation =
    markDirty slot roi
  | recomputeBlock upstream "nat list"
  | readAll upstream

fun apply_operation :: "op_state \<Rightarrow> operation \<Rightarrow> op_state" where
  "apply_operation st (markDirty slt r) =
     (case propagateDirty slt r st of Inl e \<Rightarrow> st | Inr st' \<Rightarrow> st')"
| "apply_operation st (recomputeBlock env b) = snd (update_block env b st)"
| "apply_operation st (readAll env) = snd (snd (execute env LabelAndFeatureMatrix st))"

text \<open>
  A fetch made by \<open>_extract_feature_matrix\<close> for the label roi raises \<open>e\<close>: the fetch
  of the labels does, or the labels arrive, some are not zero, and the fetch of the
  features over their bounding box does.
\<close>

definition fetch_raises :: "upstream \<Rightarrow> roi \<Rightarrow> error \<Rightarrow> bool" where
  "fetch_raises env label_roi e =
     (case wait (LabelImage_in env) (fst label_roi) (snd label_roi) of
        Inl e' \<Rightarrow> e' = e
      | Inr labels \<Rightarrow>
          let lshape = map2 (-) (snd label_roi) (fst label_roi);
              label_positions = numpy_nonzero (butlast lshape) (\<lambda>p. labels (p @ [0]))
          in lshape \<noteq> [] \<and> last lshape \<noteq> 0
             \<and> label_positions \<noteq> [] \<and> hd label_positions \<noteq> []
             \<and> (case wait (FeatureImage_in env)
                       (map (\<lambda>ax. Min (set ax)) label_positions @ [0])
                       (map (\<lambda>ax. 1 + Max (set ax)) label_positions
                          @ [last (meta_shape (FeatureImage_in env))]) of
                   Inl e' \<Rightarrow> e' = e
                 | Inr features \<Rightarrow> False))"

text \<open>
  The cache entry of block \<open>b\<close> in \<open>st'\<close> is the matrix that \<open>_extract_feature_matrix\<close>
  computes from the feeds \<open>env\<close> for the bounds of \<open>b\<close>, with the block shape of \<open>st\<close>.
\<close>

definition freshly_computed :: "upstream \<Rightarrow> op_state \<Rightarrow> op_state \<Rightarrow> nat list \<Rightarrow> bool" where
  "freshly_computed env st st' b =
     (case blockshape st of
        None \<Rightarrow> False
      | Some bs \<Rightarrow>
          (case getBlockBounds (meta_shape (LabelImage_in env)) bs b of
             Inl e \<Rightarrow> False
           | Inr block_roi \<Rightarrow>
               (case extract_feature_matrix env block_roi of
                  Inl e \<Rightarrow> False
                | Inr m \<Rightarrow> map_of (blockwise_feature_matrices st') b = Some m)))"

subsection \<open>A small instance\<close>

text \<open>
  Four pixels along one axis, one feature channel with the value \<open>10 * x\<close> at pixel
  \<open>x\<close>, the label 1 at pixel 2, and blocks of two pixels: the blocks start at 0 and 2.
\<close>

definition example_labels :: "nat list \<Rightarrow> nat" where
  "example_labels p = (if p = [2, 0] then 1 else 0)"

definition example_features :: "nat list \<Rightarrow> real" where
  "example_features p = 10 * real (hd p)"

definition example_upstream :: upstream where
  "example_upstream =
     \<lparr>FeatureImage_in = array_feed ''xc'' [4, 1] example_features,
      LabelImage_in = array_feed ''xc'' [4, 1] example_labels\<rparr>"

definition example_clean :: op_state where
  "example_clean = init_state\<lparr>blockshape := Some [2, 1]\<rparr>"

definition example_dirty :: op_state where
  "example_dirty = example_clean\<lparr>dirty_blocks := [[0, 0], [2, 0]],
     output_dirty := [EntireSlot]\<rparr>"

text \<open>The same instance with a feature feed that raises on every request.\<close>

definition failing_upstream :: upstream where
  "failing_upstream =
     \<lparr>FeatureImage_in =
        \<lparr>meta_axiskeys = ''xc'', meta_shape = [4, 1],
         wait = (\<lambda>start stop. Inl (RequestError 7))\<rparr>,
      LabelImage_in = array_feed ''xc'' [4, 1] example_labels\<rparr>"

subsection \<open>Feeds for setup\<close>

text \<open>
  A feature feed whose last axis is not the channel axis, beside a label feed of one
  channel with the same shape on the other axes; and two channel-last feeds that differ on
  the first axis, the label feed having two channels.
\<close>

definition channel_first_upstream :: upstream where
  "channel_first_upstream =
     \<lparr>FeatureImage_in = array_feed ''cx'' [4, 4] (\<lambda>p. 0),
      LabelImage_in = array_feed ''xc'' [4, 1] (\<lambda>p. 0)\<rparr>"

definition two_channel_upstream :: upstream where
  "two_channel_upstream =
     \<lparr>FeatureImage_in = array_feed ''xc'' [5, 3] (\<lambda>p. 0),
      LabelImage_in = array_feed ''xc'' [4, 2] (\<lambda>p. 0)\<rparr>"

definition mismatched_upstream :: upstream where
  "mismatched_upstream =
     \<lparr>FeatureImage_in = array_feed ''xc'' [5, 3] (\<lambda>p. 0),
      LabelImage_in = array_feed ''xc'' [4, 1] (\<lambda>p. 0)\<rparr>"

text \<open>A block shape rule for the instances: blocks of two pixels along the first axis.\<close>

definition two_pixel_blocks :: "nat list \<Rightarrow> nat \<Rightarrow> error + nat list" where
  "two_pixel_blocks shp budget = Inr (2 # tl shp)"

subsection \<open>Progress values\<close>


subsection \<open>Feeds without labels\<close>

text \<open>
  The label array fetched for the roi arrives, has a channel axis that is not empty, and
  holds no label other than zero.
\<close>

definition unlabeled :: "upstream \<Rightarrow> roi \<Rightarrow> bool" where
  "unlabeled env label_roi =
     (case wait (LabelImage_in env) (fst label_roi) (snd label_roi) of
        Inl e \<Rightarrow> False
      | Inr labels \<Rightarrow>
          let lshape = map2 (-) (snd label_roi) (fst label_roi)
          in lshape \<noteq> [] \<and> last lshape \<noteq> 0
             \<and> list_all (\<lambda>p. labels (p @ [0]) = 0) (indices (butlast lshape)))"

text \<open>The matrix of no rows and \<open>1 + K\<close> columns, \<open>K\<close> the channels of the feature feed.\<close>

definition empty_block_matrix :: "upstream \<Rightarrow> matrix" where
  "empty_block_matrix env =
     \<lparr>ncols = 1 + last (meta_shape (FeatureImage_in env)), rows = []\<rparr>"

text \<open>
  A label feed of zeros over a region of 10 x 10 x 10 pixels, three feature channels, and
  the region as one block, marked dirty.
\<close>

definition blank_upstream :: upstream where
  "blank_upstream =
     \<lparr>FeatureImage_in = array_feed ''xyzc'' [10, 10, 10, 3] (\<lambda>p. 1),
      LabelImage_in = array_feed ''xyzc'' [10, 10, 10, 1] (\<lambda>p. 0)\<rparr>"

definition blank_dirty :: op_state where
  "blank_dirty = init_state\<lparr>blockshape := Some [10, 10, 10, 1],
     dirty_blocks := [[0, 0, 0, 0]]\<rparr>"

section \<open>Properties\<close>

subsection \<open>One recompute, a pool of recomputes\<close>

lemma dict_keys_dict_set: "set (dict_keys (dict_set k v d)) = insert k (set (dict_keys d))"
  by (induction d) (auto simp: dict_keys_def)

lemma update_block_cases:
  "update_block env b st = (r, st') \<Longrightarrow>
     (r = Inr () \<and> b \<notin> set (dirty_blocks st)
        \<and> dirty_blocks st' = dirty_blocks st
        \<and> blockwise_feature_matrices st' = blockwise_feature_matrices st)
   \<or> (\<exists>e. r = Inl e \<and> b \<in> set (dirty_blocks st)
        \<and> dirty_blocks st' = dirty_blocks st
        \<and> blockwise_feature_matrices st' = blockwise_feature_matrices st)
   \<or> (\<exists>m. r = Inr () \<and> b \<in> set (dirty_blocks st)
        \<and> dirty_blocks st' = removeAll b (dirty_blocks st)
        \<and> blockwise_feature_matrices st' = dict_set b m (blockwise_feature_matrices st))"
  by (auto simp: update_block_def Let_def split: if_splits option.splits sum.splits)

lemma update_block_ok_dirty:
  assumes "update_block env b st = (Inr u, st')"
  shows "set (dirty_blocks st') = set (dirty_blocks st) - {b}"
  using update_block_cases [OF assms] by auto

lemma update_block_covered:
  assumes "update_block env b st = (r, st')" and "covered st c"
  shows "covered st' c"
  using update_block_cases [OF assms(1)] assms(2)
  by (auto simp: covered_def stored_def dict_keys_dict_set)

lemma update_block_removed_stored:
  assumes "update_block env b st = (r, st')"
    and "c \<in> set (dirty_blocks st)" and "c \<notin> set (dirty_blocks st')"
  shows "stored st' c"
  using update_block_cases [OF assms(1)] assms(2,3)
  by (auto simp: stored_def dict_keys_dict_set)

lemma run_pool_ok_dirty:
  "run_pool env n bs st = (evs, [], st') \<Longrightarrow>
     set (dirty_blocks st') = set (dirty_blocks st) - set bs"
proof (induction bs arbitrary: st evs)
  case Nil
  then show ?case by simp
next
  case (Cons b bs)
  obtain r st1 where u: "update_block env b st = (r, st1)" by (cases "update_block env b st")
  obtain evs2 errs2 st2 where p: "run_pool env n bs st1 = (evs2, errs2, st2)"
    by (cases "run_pool env n bs st1")
  from Cons.prems u p obtain v where r: "r = Inr v" and e: "errs2 = []" and s: "st2 = st'"
    by (cases r) auto
  from Cons.IH [of st1 evs2] p e s
  have "set (dirty_blocks st') = set (dirty_blocks st1) - set bs" by simp
  moreover from update_block_ok_dirty u r
  have "set (dirty_blocks st1) = set (dirty_blocks st) - {b}" by blast
  ultimately show ?case by auto
qed

lemma run_pool_covered:
  "run_pool env n bs st = (evs, errs, st') \<Longrightarrow> covered st c \<Longrightarrow> covered st' c"
proof (induction bs arbitrary: st evs errs)
  case Nil
  then show ?case by simp
next
  case (Cons b bs)
  obtain r st1 where u: "update_block env b st = (r, st1)" by (cases "update_block env b st")
  obtain evs2 errs2 st2 where p: "run_pool env n bs st1 = (evs2, errs2, st2)"
    by (cases "run_pool env n bs st1")
  from Cons.prems(1) u p have s: "st2 = st'" by (cases r) auto
  have "covered st1 c" using update_block_covered [OF u Cons.prems(2)] .
  from Cons.IH [OF p [unfolded s] this] show ?case .
qed

lemma execute_state:
  "execute env slt st = (evs, r, st') \<Longrightarrow>
     st' = st \<or> (\<exists>evs1 errs. run_pool env (set_len (dirty_blocks st))
                       (remdups (dirty_blocks st)) st = (evs1, errs, st'))"
  by (auto simp: execute_def Let_def split: if_splits prod.splits list.splits sum.splits)

subsection \<open>Invalidation of NonZeroLabelBlocks\<close>

text \<open>
  Claim C10. An invalidation that arrives on the NonZeroLabelBlocks input changes nothing,
  for every region: the dirty set, the cached block matrices and the notices sent on the
  output (indeed the whole state of the operator) are as before, and nothing is raised.
\<close>

theorem nonzero_label_blocks_dirty_is_noop:
  "propagateDirty NonZeroLabelBlocks r st = Inr st"
  by (simp add: propagateDirty_def)

subsection \<open>A read with nothing cached\<close>

text \<open>
  Claim C2. With no dirty block and no cached block matrix, \<open>execute\<close> returns a matrix
  with no rows and no columns, whatever the number of feature channels of the feature
  feed is: the shape is (0, 0), not (0, 1 + K). The progress values are 0 and 100 and
  the state is unchanged.
\<close>

theorem empty_store_read_has_no_columns:
  "execute env LabelAndFeatureMatrix example_clean
     = ([0, 100], Inr \<lparr>ncols = 0, rows = []\<rparr>, example_clean)"
  by (simp add: execute_def example_clean_def init_state_def set_len_def)

subsection \<open>A fetch that raises\<close>

lemma fetch_raises_extract:
  assumes "meta_shape (FeatureImage_in env) \<noteq> []" and "fetch_raises env block_roi e"
  shows "extract_feature_matrix env block_roi = Inl e"
  using assms
  by (auto simp: fetch_raises_def extract_feature_matrix_def Let_def split: sum.splits)

text \<open>
  Claim C3. Let a block be dirty and let the fetch of its labels, or the fetch of the
  features over the bounding box of its labels, raise \<open>e\<close>. Then \<open>_update_block\<close>
  raises \<open>e\<close>, the cached block matrices are exactly as before (nothing is installed for
  the block), and the dirty set is as before, so the block is still dirty.
\<close>

theorem fetch_error_leaves_block_dirty:
  assumes "b \<in> set (dirty_blocks st)"
    and "blockshape st = Some bs"
    and "getBlockBounds (meta_shape (LabelImage_in env)) bs b = Inr block_roi"
    and "meta_shape (FeatureImage_in env) \<noteq> []"
    and "fetch_raises env block_roi e"
  shows "\<exists>st'. update_block env b st = (Inl e, st')
           \<and> blockwise_feature_matrices st' = blockwise_feature_matrices st
           \<and> dirty_blocks st' = dirty_blocks st
           \<and> b \<in> set (dirty_blocks st')"
  using assms(1-3) fetch_raises_extract [OF assms(4,5)]
  by (simp add: update_block_def Let_def)

lemma failing_fetch: "fetch_raises failing_upstream ([2, 0], [4, 1]) (RequestError 7)"
  by code_simp

text \<open>
  In the small instance with the failing feature feed, the block at 2 holds a label, the
  fetch of its features raises, and the block stays dirty with nothing installed.
\<close>

theorem fetch_error_leaves_block_dirty_witness:
  "\<exists>st'. update_block failing_upstream [2, 0] example_dirty = (Inl (RequestError 7), st')
           \<and> blockwise_feature_matrices st' = blockwise_feature_matrices example_dirty
           \<and> dirty_blocks st' = dirty_blocks example_dirty
           \<and> [2, 0] \<in> set (dirty_blocks st')"
proof -
  have 1: "[2, 0] \<in> set (dirty_blocks example_dirty)"
    by (simp add: example_dirty_def)
  have 2: "blockshape example_dirty = Some [2, 1]"
    by (simp add: example_dirty_def example_clean_def init_state_def)
  have 3: "getBlockBounds (meta_shape (LabelImage_in failing_upstream)) [2, 1] [2, 0]
             = Inr ([2, 0], [4, 1])"
    by (simp add: getBlockBounds_def failing_upstream_def array_feed_def)
  have 4: "meta_shape (FeatureImage_in failing_upstream) \<noteq> []"
    by (simp add: failing_upstream_def)
  show ?thesis
    using fetch_error_leaves_block_dirty [OF 1 2 3 4 failing_fetch] .
qed

subsection \<open>The small instance, computed\<close>

lemma example_read:
  "execute example_upstream LabelAndFeatureMatrix example_dirty
     = ([0, 95 / 2, 95, 100], Inr \<lparr>ncols = 2, rows = [[1, 0]]\<rparr>,
        example_dirty\<lparr>blockwise_feature_matrices :=
            [([0, 0], \<lparr>ncols = 2, rows = []\<rparr>), ([2, 0], \<lparr>ncols = 2, rows = [[1, 0]]\<rparr>)],
          dirty_blocks := [], block_locks := [[0, 0], [2, 0]]\<rparr>)"
  by code_simp

lemma example_markDirty:
  "propagateDirty LabelImage ([0, 0], [4, 1]) example_clean = Inr example_dirty"
  by code_simp

subsection \<open>Two reads in a row\<close>

lemma execute_ok_run:
  assumes "execute env LabelAndFeatureMatrix st = (evs, Inr m, st')"
  shows "\<exists>evs1. run_pool env (set_len (dirty_blocks st)) (remdups (dirty_blocks st)) st
                  = (evs1, [], st')
            \<and> evs = 0 # evs1 @ [100]
            \<and> (if blockwise_feature_matrices st' \<noteq> []
                then concatenate_axis0 (dict_values (blockwise_feature_matrices st'))
                else Inr \<lparr>ncols = 0, rows = []\<rparr>) = Inr m"
  using assms
  by (auto simp: execute_def Let_def split: prod.splits list.splits sum.splits if_splits)

text \<open>
  Claim C4. Let a read return the matrix \<open>m\<close> and leave the operator in the state
  \<open>st'\<close>. Then no block is dirty in \<open>st'\<close>, and a second read made in \<open>st'\<close> (no
  invalidation in between), whatever the feeds hold by then, starts no recompute, leaves
  the state as it is, and returns the same matrix \<open>m\<close>: the same cached block matrices
  concatenated in the same order. Its progress values are 0 and 100.
\<close>

theorem repeated_read_is_identical:
  assumes "execute env LabelAndFeatureMatrix st = (evs, Inr m, st')"
  shows "dirty_blocks st' = []
       \<and> execute env' LabelAndFeatureMatrix st' = ([0, 100], Inr m, st')"
proof -
  from execute_ok_run [OF assms] obtain evs1 where
    run: "run_pool env (set_len (dirty_blocks st)) (remdups (dirty_blocks st)) st
            = (evs1, [], st')"
    and cat: "(if blockwise_feature_matrices st' \<noteq> []
                then concatenate_axis0 (dict_values (blockwise_feature_matrices st'))
                else Inr \<lparr>ncols = 0, rows = []\<rparr>) = Inr m"
    by blast
  from run_pool_ok_dirty [OF run] have clean: "dirty_blocks st' = []" by simp
  have "execute env' LabelAndFeatureMatrix st' = ([0, 100], Inr m, st')"
    using cat by (simp add: execute_def clean set_len_def split: if_splits)
  with clean show ?thesis by simp
qed

text \<open>
  In the small instance: the first read recomputes both blocks, the second read returns
  the same one-row matrix and changes nothing.
\<close>

theorem repeated_read_is_identical_witness:
  "fst (snd (execute example_upstream LabelAndFeatureMatrix example_dirty))
     = Inr \<lparr>ncols = 2, rows = [[1, 0]]\<rparr>
   \<and> execute failing_upstream LabelAndFeatureMatrix
        (snd (snd (execute example_upstream LabelAndFeatureMatrix example_dirty)))
     = ([0, 100], Inr \<lparr>ncols = 2, rows = [[1, 0]]\<rparr>,
        snd (snd (execute example_upstream LabelAndFeatureMatrix example_dirty)))"
  using repeated_read_is_identical [OF example_read, of failing_upstream]
  by (simp add: example_read)

subsection \<open>A dirty block stays dirty until its matrix is stored\<close>

lemma set_set_update: "set (set_update s xs) = set s \<union> set xs"
  by (auto simp: set_update_def)

lemma propagateDirty_dirty:
  "propagateDirty slt r st = Inr st' \<Longrightarrow>
     set (dirty_blocks st) \<subseteq> set (dirty_blocks st')
     \<and> blockwise_feature_matrices st' = blockwise_feature_matrices st"
  by (auto simp: propagateDirty_def Let_def set_set_update
      split: if_splits option.splits sum.splits)

lemma execute_covered:
  assumes "execute env slt st = (evs, r, st')" and "covered st c"
  shows "covered st' c"
  using execute_state [OF assms(1)] assms(2) run_pool_covered by blast

lemma apply_operation_covered:
  "covered st c \<Longrightarrow> covered (apply_operation st x) c"
proof (cases x)
  case (markDirty slt r)
  assume c: "covered st c"
  show ?thesis
  proof (cases "propagateDirty slt r st")
    case (Inl e)
    with markDirty c show ?thesis by simp
  next
    case (Inr st')
    from propagateDirty_dirty [OF Inr] c have "covered st' c"
      by (auto simp: covered_def stored_def)
    with markDirty Inr show ?thesis by simp
  qed
next
  case (recomputeBlock env b)
  assume c: "covered st c"
  obtain r st' where u: "update_block env b st = (r, st')" by (cases "update_block env b st")
  from update_block_covered [OF u c] recomputeBlock u show ?thesis by simp
next
  case (readAll env)
  assume c: "covered st c"
  obtain evs r st' where u: "execute env LabelAndFeatureMatrix st = (evs, r, st')"
    by (cases "execute env LabelAndFeatureMatrix st")
  from execute_covered [OF u c] readAll u show ?thesis by simp
qed

lemma foldl_apply_operation_covered:
  "covered st c \<Longrightarrow> covered (foldl apply_operation st xs) c"
  by (induction xs arbitrary: st) (auto simp: apply_operation_covered)

lemma map_of_dict_set_same: "map_of (dict_set k v d) k = Some v"
  by (induction d) auto

lemma map_of_dict_set_other: "c \<noteq> b \<Longrightarrow> map_of (dict_set c v d) b = map_of d b"
  by (induction d) auto

lemma update_block_detail:
  assumes "update_block env c st = (r, st')"
  shows "blockshape st' = blockshape st"
    and "(dirty_blocks st' = dirty_blocks st
            \<and> blockwise_feature_matrices st' = blockwise_feature_matrices st)
         \<or> (c \<in> set (dirty_blocks st)
            \<and> dirty_blocks st' = removeAll c (dirty_blocks st)
            \<and> freshly_computed env st st' c
            \<and> (\<forall>b. b \<noteq> c \<longrightarrow> map_of (blockwise_feature_matrices st') b
                              = map_of (blockwise_feature_matrices st) b))"
  using assms
  by (auto simp: update_block_def Let_def freshly_computed_def map_of_dict_set_same
      map_of_dict_set_other split: if_splits option.splits sum.splits)

lemma update_block_clean_entry:
  assumes "update_block env c st = (r, st')" and "b \<notin> set (dirty_blocks st)"
  shows "b \<notin> set (dirty_blocks st')"
    and "map_of (blockwise_feature_matrices st') b = map_of (blockwise_feature_matrices st) b"
  using update_block_detail(2) [OF assms(1)] assms(2) by auto

lemma run_pool_clean_entry:
  "run_pool env n bs st = (evs, errs, st') \<Longrightarrow> b \<notin> set (dirty_blocks st) \<Longrightarrow>
     map_of (blockwise_feature_matrices st') b = map_of (blockwise_feature_matrices st) b"
proof (induction bs arbitrary: st evs errs)
  case Nil
  then show ?case by simp
next
  case (Cons c bs)
  obtain r st1 where u: "update_block env c st = (r, st1)" by (cases "update_block env c st")
  obtain evs2 errs2 st2 where p: "run_pool env n bs st1 = (evs2, errs2, st2)"
    by (cases "run_pool env n bs st1")
  from Cons.prems(1) u p have s: "st2 = st'" by (cases r) auto
  from update_block_clean_entry [OF u Cons.prems(2)]
  have 1: "b \<notin> set (dirty_blocks st1)"
    and 2: "map_of (blockwise_feature_matrices st1) b = map_of (blockwise_feature_matrices st) b"
    by simp_all
  from Cons.IH [OF p [unfolded s] 1] 2 show ?case by simp
qed

lemma run_pool_fresh:
  "run_pool env n bs st = (evs, errs, st') \<Longrightarrow>
   b \<in> set (dirty_blocks st) \<Longrightarrow> b \<notin> set (dirty_blocks st') \<Longrightarrow>
     freshly_computed env st st' b"
proof (induction bs arbitrary: st evs errs)
  case Nil
  then show ?case by simp
next
  case (Cons c bs)
  obtain r st1 where u: "update_block env c st = (r, st1)" by (cases "update_block env c st")
  obtain evs2 errs2 st2 where p: "run_pool env n bs st1 = (evs2, errs2, st2)"
    by (cases "run_pool env n bs st1")
  from Cons.prems(1) u p have s: "st2 = st'" by (cases r) auto
  note p' = p [unfolded s]
  have shape: "blockshape st1 = blockshape st" using update_block_detail(1) [OF u] .
  show ?case
  proof (cases "b \<in> set (dirty_blocks st1)")
    case True
    from Cons.IH [OF p' True Cons.prems(3)] have "freshly_computed env st1 st' b" .
    then show ?thesis using shape by (simp add: freshly_computed_def)
  next
    case False
    with update_block_detail(2) [OF u] Cons.prems(2)
    have "b = c" and f: "freshly_computed env st st1 b" by auto
    from run_pool_clean_entry [OF p' False]
    have "map_of (blockwise_feature_matrices st') b = map_of (blockwise_feature_matrices st1) b" .
    with f show ?thesis
      by (auto simp: freshly_computed_def split: option.splits sum.splits)
  qed
qed

lemma execute_fresh:
  assumes "execute env slt st = (evs, r, st')"
    and "b \<in> set (dirty_blocks st)" and "b \<notin> set (dirty_blocks st')"
  shows "freshly_computed env st st' b"
  using execute_state [OF assms(1)] assms(2,3) run_pool_fresh by blast

lemma apply_operation_fresh:
  assumes "b \<in> set (dirty_blocks st)" and "b \<notin> set (dirty_blocks (apply_operation st x))"
  shows "\<exists>env. (x = recomputeBlock env b \<or> x = readAll env)
           \<and> freshly_computed env st (apply_operation st x) b"
proof (cases x)
  case (markDirty slt r)
  show ?thesis
  proof (cases "propagateDirty slt r st")
    case (Inl e)
    with markDirty assms show ?thesis by simp
  next
    case (Inr st')
    from propagateDirty_dirty [OF Inr] assms markDirty Inr show ?thesis by auto
  qed
next
  case (recomputeBlock env c)
  obtain r st' where u: "update_block env c st = (r, st')" by (cases "update_block env c st")
  with recomputeBlock assms have "b \<notin> set (dirty_blocks st')" by simp
  with update_block_detail(2) [OF u] assms(1)
  have "b = c" and "freshly_computed env st st' b" by auto
  with recomputeBlock u show ?thesis by simp
next
  case (readAll env)
  obtain evs r st' where u: "execute env LabelAndFeatureMatrix st = (evs, r, st')"
    by (cases "execute env LabelAndFeatureMatrix st")
  with readAll assms have "b \<notin> set (dirty_blocks st')" by simp
  from execute_fresh [OF u assms(1) this] readAll u show ?thesis by simp
qed

lemma foldl_apply_operation_removed:
  "b \<in> set (dirty_blocks st) \<Longrightarrow> b \<notin> set (dirty_blocks (foldl apply_operation st ys)) \<Longrightarrow>
     \<exists>us x vs. ys = us @ x # vs
        \<and> b \<in> set (dirty_blocks (foldl apply_operation st us))
        \<and> b \<notin> set (dirty_blocks (apply_operation (foldl apply_operation st us) x))"
proof (induction ys arbitrary: st)
  case Nil
  then show ?case by simp
next
  case (Cons y ys)
  show ?case
  proof (cases "b \<in> set (dirty_blocks (apply_operation st y))")
    case False
    with Cons.prems(1) have "y # ys = [] @ y # ys
        \<and> b \<in> set (dirty_blocks (foldl apply_operation st []))
        \<and> b \<notin> set (dirty_blocks (apply_operation (foldl apply_operation st []) y))"
      by simp
    then show ?thesis by blast
  next
    case True
    from Cons.prems(2) have "b \<notin> set (dirty_blocks (foldl apply_operation (apply_operation st y) ys))"
      by simp
    from Cons.IH [OF True this] obtain us x vs where
      "ys = us @ x # vs"
      "b \<in> set (dirty_blocks (foldl apply_operation (apply_operation st y) us))"
      "b \<notin> set (dirty_blocks (apply_operation
                (foldl apply_operation (apply_operation st y) us) x))"
      by blast
    then have "y # ys = (y # us) @ x # vs
        \<and> b \<in> set (dirty_blocks (foldl apply_operation st (y # us)))
        \<and> b \<notin> set (dirty_blocks (apply_operation (foldl apply_operation st (y # us)) x))"
      by simp
    then show ?thesis by blast
  qed
qed


text \<open>
  Claim C6. For each of the operations markDirty, recomputeBlock and readAll: a block
  that is dirty before the operation and not dirty after it was removed by a recompute of
  that block or by a read, and after the operation the cache holds for it the matrix that
  \<open>_extract_feature_matrix\<close> computes from the feeds of that operation for the bounds of
  the block; an invalidation removes no block. Along any sequence of these operations,
  from any state: a block that is dirty at some moment is, at every later moment, dirty or
  in the cache; and if it is no longer dirty at a later moment, then one operation in
  between, a recompute of it or a read, removed it and left its freshly computed matrix
  in the cache. So a block is never taken for clean without its matrix having been
  computed and installed.
\<close>

theorem dirty_until_stored:
  "(b \<in> set (dirty_blocks st) \<and> b \<notin> set (dirty_blocks (apply_operation st x))
      \<longrightarrow> stored (apply_operation st x) b
          \<and> (\<exists>env. (x = recomputeBlock env b \<or> x = readAll env)
                \<and> freshly_computed env st (apply_operation st x) b))
   \<and> (b \<in> set (dirty_blocks (foldl apply_operation st0 xs))
      \<longrightarrow> covered (foldl apply_operation st0 (xs @ ys)) b)
   \<and> (b \<in> set (dirty_blocks (foldl apply_operation st0 xs))
        \<and> b \<notin> set (dirty_blocks (foldl apply_operation st0 (xs @ ys)))
      \<longrightarrow> (\<exists>us x' vs env. ys = us @ x' # vs
            \<and> (x' = recomputeBlock env b \<or> x' = readAll env)
            \<and> b \<in> set (dirty_blocks (foldl apply_operation st0 (xs @ us)))
            \<and> freshly_computed env (foldl apply_operation st0 (xs @ us))
                  (foldl apply_operation st0 (xs @ us @ [x'])) b))"
proof (intro conjI impI)
  assume h: "b \<in> set (dirty_blocks st) \<and> b \<notin> set (dirty_blocks (apply_operation st x))"
  then show "stored (apply_operation st x) b"
    using apply_operation_covered [of st b x] by (auto simp: covered_def)
  from h show "\<exists>env. (x = recomputeBlock env b \<or> x = readAll env)
                \<and> freshly_computed env st (apply_operation st x) b"
    using apply_operation_fresh [of b st x] by blast
next
  assume "b \<in> set (dirty_blocks (foldl apply_operation st0 xs))"
  then show "covered (foldl apply_operation st0 (xs @ ys)) b"
    using foldl_apply_operation_covered [of "foldl apply_operation st0 xs" b ys]
    by (auto simp: covered_def)
next
  let ?s = "foldl apply_operation st0 xs"
  assume "b \<in> set (dirty_blocks ?s)
        \<and> b \<notin> set (dirty_blocks (foldl apply_operation st0 (xs @ ys)))"
  then have d: "b \<in> set (dirty_blocks ?s)"
    and c: "b \<notin> set (dirty_blocks (foldl apply_operation ?s ys))"
    by simp_all
  from foldl_apply_operation_removed [OF d c] obtain us x' vs where
    ys: "ys = us @ x' # vs"
    and before: "b \<in> set (dirty_blocks (foldl apply_operation ?s us))"
    and after: "b \<notin> set (dirty_blocks (apply_operation (foldl apply_operation ?s us) x'))"
    by blast
  from apply_operation_fresh [OF before after] obtain env where
    "x' = recomputeBlock env b \<or> x' = readAll env"
    "freshly_computed env (foldl apply_operation ?s us)
       (apply_operation (foldl apply_operation ?s us) x') b"
    by blast
  with ys before show "\<exists>us x' vs env. ys = us @ x' # vs
            \<and> (x' = recomputeBlock env b \<or> x' = readAll env)
            \<and> b \<in> set (dirty_blocks (foldl apply_operation st0 (xs @ us)))
            \<and> freshly_computed env (foldl apply_operation st0 (xs @ us))
                  (foldl apply_operation st0 (xs @ us @ [x'])) b"
    by (intro exI [of _ us] exI [of _ x'] exI [of _ vs] exI [of _ env]) simp
qed

text \<open>
  In the small instance: the block at 2 is dirty after the invalidation of the whole
  label feed, the read removes it from the dirty set, and the cache then holds for it the
  matrix computed from the feeds, the one row (1, 0).
\<close>

theorem dirty_until_stored_witness:
  "[2, 0] \<in> set (dirty_blocks (foldl apply_operation example_clean
       [markDirty LabelImage ([0, 0], [4, 1])]))
   \<and> [2, 0] \<notin> set (dirty_blocks (apply_operation example_dirty (readAll example_upstream)))
   \<and> stored (apply_operation example_dirty (readAll example_upstream)) [2, 0]
   \<and> freshly_computed example_upstream example_dirty
         (apply_operation example_dirty (readAll example_upstream)) [2, 0]
   \<and> map_of (blockwise_feature_matrices
         (apply_operation example_dirty (readAll example_upstream))) [2, 0]
       = Some \<lparr>ncols = 2, rows = [[1, 0]]\<rparr>
   \<and> covered (foldl apply_operation example_clean
       ([markDirty LabelImage ([0, 0], [4, 1])] @ [readAll example_upstream])) [2, 0]
   \<and> (\<exists>us x' vs env. [readAll example_upstream] = us @ x' # vs
         \<and> (x' = recomputeBlock env [2, 0] \<or> x' = readAll env)
         \<and> [2, 0] \<in> set (dirty_blocks (foldl apply_operation example_clean
               ([markDirty LabelImage ([0, 0], [4, 1])] @ us)))
         \<and> freshly_computed env
               (foldl apply_operation example_clean
                  ([markDirty LabelImage ([0, 0], [4, 1])] @ us))
               (foldl apply_operation example_clean
                  ([markDirty LabelImage ([0, 0], [4, 1])] @ us @ [x'])) [2, 0])"
proof -
  let ?after = "apply_operation example_dirty (readAll example_upstream)"
  let ?mark = "[markDirty LabelImage ([0, 0], [4, 1])]"
  have 1: "[2, 0] \<in> set (dirty_blocks example_dirty)"
    by (simp add: example_dirty_def)
  have 2: "[2, 0] \<notin> set (dirty_blocks ?after)"
    by (simp add: example_read)
  have 3: "foldl apply_operation example_clean ?mark = example_dirty"
    unfolding foldl.simps apply_operation.simps example_markDirty by simp
  have 4: "map_of (blockwise_feature_matrices ?after) [2, 0]
             = Some \<lparr>ncols = 2, rows = [[1, 0]]\<rparr>"
    by (simp add: example_read)
  have 5: "foldl apply_operation example_clean (?mark @ [readAll example_upstream]) = ?after"
    unfolding foldl_append 3 by simp
  note t = dirty_until_stored [of "[2, 0]" example_dirty "readAll example_upstream"
      example_clean ?mark "[readAll example_upstream]"]
  from t 1 2 have a: "stored ?after [2, 0]"
    and b: "freshly_computed example_upstream example_dirty ?after [2, 0]"
    by auto
  from t have "[2, 0] \<in> set (dirty_blocks (foldl apply_operation example_clean ?mark))
      \<longrightarrow> covered (foldl apply_operation example_clean
            (?mark @ [readAll example_upstream])) [2, 0]"
    by (rule conjunct1 [OF conjunct2])
  with 1 have c: "covered (foldl apply_operation example_clean
       (?mark @ [readAll example_upstream])) [2, 0]"
    unfolding 3 by simp
  from t have "[2, 0] \<in> set (dirty_blocks (foldl apply_operation example_clean ?mark))
        \<and> [2, 0] \<notin> set (dirty_blocks (foldl apply_operation example_clean
               (?mark @ [readAll example_upstream])))
      \<longrightarrow> (\<exists>us x' vs env. [readAll example_upstream] = us @ x' # vs
         \<and> (x' = recomputeBlock env [2, 0] \<or> x' = readAll env)
         \<and> [2, 0] \<in> set (dirty_blocks (foldl apply_operation example_clean (?mark @ us)))
         \<and> freshly_computed env
               (foldl apply_operation example_clean (?mark @ us))
               (foldl apply_operation example_clean (?mark @ us @ [x'])) [2, 0])"
    by (rule conjunct2 [OF conjunct2])
  moreover have "[2, 0] \<in> set (dirty_blocks (foldl apply_operation example_clean ?mark))"
    unfolding 3 by (rule 1)
  moreover have "[2, 0] \<notin> set (dirty_blocks (foldl apply_operation example_clean
               (?mark @ [readAll example_upstream])))"
    unfolding 5 by (rule 2)
  ultimately have d: "\<exists>us x' vs env. [readAll example_upstream] = us @ x' # vs
         \<and> (x' = recomputeBlock env [2, 0] \<or> x' = readAll env)
         \<and> [2, 0] \<in> set (dirty_blocks (foldl apply_operation example_clean (?mark @ us)))
         \<and> freshly_computed env
               (foldl apply_operation example_clean (?mark @ us))
               (foldl apply_operation example_clean (?mark @ us @ [x'])) [2, 0]"
    by blast
  have e: "[2, 0] \<in> set (dirty_blocks (foldl apply_operation example_clean ?mark))"
    unfolding 3 by (rule 1)
  from e 2 a b 4 c d show ?thesis by (intro conjI)
qed

subsection \<open>Invalidation of the feature and label feeds\<close>

text \<open>
  The blocks that \<open>getIntersectingBlocks\<close> returns for a region are the block starts
  (multiples of the block shape on every axis) whose block meets the region's extent on
  every axis.
\<close>

lemma axis_block_starts_member:
  assumes "0 < b"
  shows "x \<in> set (axis_block_starts b s e) \<longleftrightarrow> b dvd x \<and> x < e \<and> s < x + b"
proof -
  have up: "i < (e + b - 1) div b \<longleftrightarrow> i * b < e" for i
  proof -
    have "i < (e + b - 1) div b \<longleftrightarrow> Suc i \<le> (e + b - 1) div b" by auto
    also have "\<dots> \<longleftrightarrow> Suc i * b \<le> e + b - 1"
      using assms by (simp add: less_eq_div_iff_mult_less_eq)
    also have "\<dots> \<longleftrightarrow> i * b < e" using assms by auto
    finally show ?thesis .
  qed
  have lo: "s div b \<le> i \<longleftrightarrow> s < i * b + b" for i
  proof -
    have "s div b \<le> i \<longleftrightarrow> s div b < Suc i" by auto
    also have "\<dots> \<longleftrightarrow> s < Suc i * b"
      using assms by (simp add: div_less_iff_less_mult)
    finally show ?thesis by (simp add: add.commute)
  qed
  show ?thesis
  proof
    assume "x \<in> set (axis_block_starts b s e)"
    then have "\<exists>i. x = i * b \<and> s div b \<le> i \<and> i < (e + b - 1) div b"
      unfolding axis_block_starts_def by auto
    then show "b dvd x \<and> x < e \<and> s < x + b" using up lo by auto
  next
    assume r: "b dvd x \<and> x < e \<and> s < x + b"
    then obtain i where x: "x = i * b" by (auto simp: dvd_def mult.commute)
    with r up lo have "s div b \<le> i" "i < (e + b - 1) div b" by simp_all
    with x show "x \<in> set (axis_block_starts b s e)"
      by (auto simp: axis_block_starts_def)
  qed
qed

lemma getIntersectingBlocks_member:
  assumes "length start = length bs" and "length stop = length bs" and "0 \<notin> set bs"
  shows "\<exists>blocks. getIntersectingBlocks bs (start, stop) = Inr blocks
           \<and> (\<forall>c. c \<in> set blocks \<longleftrightarrow>
                 length c = length bs
                 \<and> (\<forall>k < length bs. bs ! k dvd c ! k \<and> c ! k < stop ! k
                        \<and> start ! k < c ! k + bs ! k))"
proof -
  let ?axes = "map (\<lambda>(b, start, stop). axis_block_starts b start stop)
                 (zip bs (zip start stop))"
  have g: "getIntersectingBlocks bs (start, stop) = Inr (product_lists ?axes)"
    using assms by (simp add: getIntersectingBlocks_def)
  have pos: "0 < bs ! k" if "k < length bs" for k
    using assms(3) that by (metis nth_mem neq0_conv)
  have "c \<in> set (product_lists ?axes) \<longleftrightarrow>
          length c = length bs
          \<and> (\<forall>k < length bs. bs ! k dvd c ! k \<and> c ! k < stop ! k
                 \<and> start ! k < c ! k + bs ! k)" for c
    using assms(1,2) pos
    by (auto simp: product_lists_set list_all2_conv_all_nth axis_block_starts_member)
  with g show ?thesis by blast
qed

text \<open>
  Claim C9. Let an invalidation with a region of at least one axis arrive on FeatureImage
  or on LabelImage, after setup. The channel extent of the region is replaced by [0,1),
  and when \<open>getIntersectingBlocks\<close> returns the blocks of the region so collapsed, the
  dirty set becomes its old content together with these blocks (nothing is removed from
  it), the cached matrices are untouched, and one notice is sent on the output, for the
  entire output, however small the region is.
\<close>

theorem feed_invalidation_marks_blocks:
  assumes "slt = FeatureImage \<or> slt = LabelImage"
    and "blockshape st = Some bs"
    and "fst r \<noteq> []" and "snd r \<noteq> []"
    and "getIntersectingBlocks bs (butlast (fst r) @ [0], butlast (snd r) @ [1]) = Inr blocks"
  shows "\<exists>st'. propagateDirty slt r st = Inr st'
           \<and> set (dirty_blocks st') = set (dirty_blocks st) \<union> set blocks
           \<and> set (dirty_blocks st) \<subseteq> set (dirty_blocks st')
           \<and> blockwise_feature_matrices st' = blockwise_feature_matrices st
           \<and> output_dirty st' = output_dirty st @ [EntireSlot]"
  using assms by (auto simp: propagateDirty_def Let_def set_set_update)

text \<open>
  In the small instance: the last pixel of the feature feed, channels 1 and 2, is
  invalidated; the block at 2 becomes dirty and the entire output is dirty.
\<close>

theorem feed_invalidation_marks_blocks_witness:
  "getIntersectingBlocks [2, 1] ([3, 0], [4, 1]) = Inr [[2, 0]]
   \<and> (\<exists>st'. propagateDirty FeatureImage ([3, 1], [4, 3]) example_clean = Inr st'
           \<and> set (dirty_blocks st') = set (dirty_blocks example_clean) \<union> set [[2, 0]]
           \<and> set (dirty_blocks example_clean) \<subseteq> set (dirty_blocks st')
           \<and> blockwise_feature_matrices st' = blockwise_feature_matrices example_clean
           \<and> output_dirty st' = output_dirty example_clean @ [EntireSlot])"
proof -
  have 1: "blockshape example_clean = Some [2, 1]"
    by (simp add: example_clean_def init_state_def)
  have 2: "getIntersectingBlocks [2, 1]
             (butlast (fst ([3, 1], [4, 3])) @ [0], butlast (snd ([3, 1], [4, 3])) @ [1])
           = Inr [[2, 0]]"
    by code_simp
  have 3: "getIntersectingBlocks [2, 1] ([3, 0], [4, 1]) = Inr [[2, 0]]"
    by code_simp
  from feed_invalidation_marks_blocks [of FeatureImage example_clean "[2, 1]"
      "([3, 1], [4, 3])" "[[2, 0]]", OF _ 1 _ _ 2] 3
  show ?thesis by simp
qed

subsection \<open>Setup\<close>

text \<open>
  Claim C8, as the code has it. \<open>setupOutputs\<close> makes four checks, in this order: the
  feature feed is channel-last, the label feed is channel-last, the label feed has one
  channel, the two shapes agree on every axis but the last. Setup succeeds exactly when
  the four checks pass and the block shape rule returns a block shape for the label
  shape and the budget, which is the constant 1000000 and is not checked. When a check
  fails, setup raises, the operator is left as it was and the block shape rule is not
  consulted; when the first three checks pass and the shapes differ on an axis that is
  not the last, the error raised names both shapes.
\<close>

theorem setup_checks:
  "(fst (setupOutputs rule env st) = Inr () \<longleftrightarrow>
      meta_axiskeys (FeatureImage_in env) \<noteq> []
      \<and> last (meta_axiskeys (FeatureImage_in env)) = CHR ''c''
      \<and> meta_axiskeys (LabelImage_in env) \<noteq> []
      \<and> last (meta_axiskeys (LabelImage_in env)) = CHR ''c''
      \<and> meta_shape (LabelImage_in env) \<noteq> []
      \<and> last (meta_shape (LabelImage_in env)) = 1
      \<and> butlast (meta_shape (FeatureImage_in env)) = butlast (meta_shape (LabelImage_in env))
      \<and> (\<exists>bs. rule (meta_shape (LabelImage_in env)) 1000000 = Inr bs))
   \<and> (\<not> (meta_axiskeys (FeatureImage_in env) \<noteq> []
          \<and> last (meta_axiskeys (FeatureImage_in env)) = CHR ''c''
          \<and> meta_axiskeys (LabelImage_in env) \<noteq> []
          \<and> last (meta_axiskeys (LabelImage_in env)) = CHR ''c''
          \<and> meta_shape (LabelImage_in env) \<noteq> []
          \<and> last (meta_shape (LabelImage_in env)) = 1
          \<and> butlast (meta_shape (FeatureImage_in env)) = butlast (meta_shape (LabelImage_in env)))
      \<longrightarrow> (\<exists>e. \<forall>rule'. setupOutputs rule' env st = (Inl e, st)))
   \<and> (meta_axiskeys (FeatureImage_in env) \<noteq> []
        \<and> last (meta_axiskeys (FeatureImage_in env)) = CHR ''c''
        \<and> meta_axiskeys (LabelImage_in env) \<noteq> []
        \<and> last (meta_axiskeys (LabelImage_in env)) = CHR ''c''
        \<and> meta_shape (LabelImage_in env) \<noteq> []
        \<and> last (meta_shape (LabelImage_in env)) = 1
        \<and> butlast (meta_shape (FeatureImage_in env)) \<noteq> butlast (meta_shape (LabelImage_in env))
      \<longrightarrow> setupOutputs rule env st
            = (Inl (ShapesDoNotMatch (meta_shape (FeatureImage_in env))
                      (meta_shape (LabelImage_in env))), st))"
  by (auto simp: setupOutputs_def Let_def MAX_BLOCK_PIXELS_def split: sum.splits)

text \<open>
  The feeds of the small instance pass the checks and setup succeeds; two feeds that are
  channel-last, with a label feed of one channel, and that differ on the first axis make
  setup raise the error that names both shapes, with the operator left as it was.
\<close>

theorem setup_checks_witness:
  "fst (setupOutputs two_pixel_blocks example_upstream init_state) = Inr ()
   \<and> setupOutputs two_pixel_blocks mismatched_upstream init_state
       = (Inl (ShapesDoNotMatch [5, 3] [4, 1]), init_state)
   \<and> (\<exists>e. \<forall>rule'. setupOutputs rule' mismatched_upstream init_state = (Inl e, init_state))"
proof -
  have ok: "two_pixel_blocks (meta_shape (LabelImage_in example_upstream)) 1000000 = Inr [2, 1]"
    by (simp add: two_pixel_blocks_def example_upstream_def array_feed_def)
  from setup_checks [of two_pixel_blocks example_upstream init_state] ok
  have a: "fst (setupOutputs two_pixel_blocks example_upstream init_state) = Inr ()"
    by (simp add: example_upstream_def array_feed_def)
  from setup_checks [of two_pixel_blocks mismatched_upstream init_state]
  have b: "setupOutputs two_pixel_blocks mismatched_upstream init_state
       = (Inl (ShapesDoNotMatch [5, 3] [4, 1]), init_state)"
    and c: "\<exists>e. \<forall>rule'. setupOutputs rule' mismatched_upstream init_state = (Inl e, init_state)"
    by (simp_all add: mismatched_upstream_def array_feed_def)
  from a b c show ?thesis by simp
qed

text \<open>
  Claim C8 as stated fails. With a feature feed that is channel-first, four channels over four pixels, the shapes agree
  on every axis but the last, the label feed is channel-last with one channel, and setup
  raises. With a label feed of two channels, the shapes differ on an axis that is not the
  channel axis, and the error raised is a bare AssertionError that names no shape.
\<close>

theorem setup_claim_counterexample:
  "butlast (meta_shape (FeatureImage_in channel_first_upstream))
     = butlast (meta_shape (LabelImage_in channel_first_upstream))
   \<and> last (meta_axiskeys (LabelImage_in channel_first_upstream)) = CHR ''c''
   \<and> last (meta_shape (LabelImage_in channel_first_upstream)) = 1
   \<and> fst (setupOutputs two_pixel_blocks channel_first_upstream init_state) = Inl AssertionError
   \<and> butlast (meta_shape (FeatureImage_in two_channel_upstream))
       \<noteq> butlast (meta_shape (LabelImage_in two_channel_upstream))
   \<and> fst (setupOutputs two_pixel_blocks two_channel_upstream init_state) = Inl AssertionError"
  by (simp add: setupOutputs_def channel_first_upstream_def two_channel_upstream_def
      array_feed_def)

subsection \<open>Progress\<close>








subsection \<open>Blocks without labels\<close>

lemma numpy_nonzero_none:
  assumes "list_all (\<lambda>p. a p = 0) (indices shp)"
  shows "numpy_nonzero shp a \<noteq> [] \<and> hd (numpy_nonzero shp a) = []"
proof -
  from assms have "filter (\<lambda>p. a p \<noteq> 0) (indices shp) = []"
    by (simp add: list_all_iff filter_empty_conv)
  then show ?thesis
    by (cases "shp = []") (simp_all add: numpy_nonzero_def hd_map)
qed

lemma extract_unlabeled:
  assumes "meta_shape (FeatureImage_in env) \<noteq> []" and "unlabeled env label_roi"
  shows "extract_feature_matrix env label_roi = Inr (empty_block_matrix env)"
proof -
  from assms(2) obtain labels where
    w: "wait (LabelImage_in env) (fst label_roi) (snd label_roi) = Inr labels"
    and s: "map2 (-) (snd label_roi) (fst label_roi) \<noteq> []"
           "last (map2 (-) (snd label_roi) (fst label_roi)) \<noteq> 0"
    and z: "list_all (\<lambda>p. labels (p @ [0]) = 0)
              (indices (butlast (map2 (-) (snd label_roi) (fst label_roi))))"
    by (auto simp: unlabeled_def Let_def split: sum.splits)
  from numpy_nonzero_none [OF z]
  have "length (hd (numpy_nonzero (butlast (map2 (-) (snd label_roi) (fst label_roi)))
                  (\<lambda>p. labels (p @ [0])))) = 0"
    by simp
  with assms(1) w s show ?thesis
    by (simp add: extract_feature_matrix_def Let_def empty_block_matrix_def)
qed

lemma map_of_dict_set: "map_of (dict_set k v d) k = Some v"
  by (induction d) auto

lemma dict_set_not_empty: "dict_set k v d \<noteq> []"
  by (cases d) auto

lemma set_dict_set:
  "distinct (map fst d) \<Longrightarrow> set (dict_set k v d) = insert (k, v) {p \<in> set d. fst p \<noteq> k}"
  by (induction d) (auto simp: rev_image_eqI)

lemma distinct_dict_set:
  "distinct (map fst d) \<Longrightarrow> distinct (map fst (dict_set k v d))"
proof (induction d)
  case Nil
  then show ?case by simp
next
  case (Cons p d)
  then have "fst ` set (dict_set k v d) \<subseteq> insert k (fst ` set d)"
    by (auto simp: set_dict_set)
  with Cons show ?case by auto
qed

lemma update_block_unlabeled:
  assumes "b \<in> set (dirty_blocks st)" and "blockshape st = Some bs"
    and "meta_shape (FeatureImage_in env) \<noteq> []"
    and "getBlockBounds (meta_shape (LabelImage_in env)) bs b = Inr block_roi"
    and "unlabeled env block_roi"
  shows "\<exists>st'. update_block env b st = (Inr (), st')
           \<and> blockwise_feature_matrices st'
               = dict_set b (empty_block_matrix env) (blockwise_feature_matrices st)
           \<and> dirty_blocks st' = removeAll b (dirty_blocks st)
           \<and> blockshape st' = Some bs"
  using assms(1,2,4) extract_unlabeled [OF assms(3,5)]
  by (simp add: update_block_def Let_def)

lemma update_block_clean:
  assumes "b \<notin> set (dirty_blocks st)"
  shows "\<exists>st'. update_block env b st = (Inr (), st')
           \<and> blockwise_feature_matrices st' = blockwise_feature_matrices st
           \<and> dirty_blocks st' = dirty_blocks st
           \<and> blockshape st' = blockshape st"
  using assms by (simp add: update_block_def Let_def)

lemma run_pool_unlabeled:
  assumes "meta_shape (FeatureImage_in env) \<noteq> []"
  shows "blockshape st = Some bs \<Longrightarrow>
     distinct (map fst (blockwise_feature_matrices st)) \<Longrightarrow>
     \<forall>b \<in> set todo. \<exists>block_roi.
        getBlockBounds (meta_shape (LabelImage_in env)) bs b = Inr block_roi
        \<and> unlabeled env block_roi \<Longrightarrow>
     \<forall>p \<in> set (blockwise_feature_matrices st).
        (fst p \<in> set todo \<and> fst p \<in> set (dirty_blocks st)) \<or> snd p = empty_block_matrix env \<Longrightarrow>
     \<exists>evs st'. run_pool env n todo st = (evs, [], st')
        \<and> (\<forall>p \<in> set (blockwise_feature_matrices st'). snd p = empty_block_matrix env)
        \<and> set (dirty_blocks st') = set (dirty_blocks st) - set todo
        \<and> (blockwise_feature_matrices st \<noteq> [] \<or> (\<exists>b \<in> set todo. b \<in> set (dirty_blocks st))
             \<longrightarrow> blockwise_feature_matrices st' \<noteq> [])"
proof (induction todo arbitrary: st)
  case Nil
  then show ?case by auto
next
  case (Cons b todo)
  let ?E = "empty_block_matrix env"
  from Cons.prems(3) obtain block_roi where
    roi: "getBlockBounds (meta_shape (LabelImage_in env)) bs b = Inr block_roi"
    and unl: "unlabeled env block_roi"
    by auto
  have "\<exists>st1. update_block env b st = (Inr (), st1)
          \<and> blockshape st1 = Some bs
          \<and> distinct (map fst (blockwise_feature_matrices st1))
          \<and> (\<forall>p \<in> set (blockwise_feature_matrices st1).
                (fst p \<in> set todo \<and> fst p \<in> set (dirty_blocks st1)) \<or> snd p = ?E)
          \<and> set (dirty_blocks st1) = set (dirty_blocks st) - {b}
          \<and> (blockwise_feature_matrices st \<noteq> [] \<or> b \<in> set (dirty_blocks st)
               \<longrightarrow> blockwise_feature_matrices st1 \<noteq> [])"
  proof (cases "b \<in> set (dirty_blocks st)")
    case True
    from update_block_unlabeled [OF True Cons.prems(1) assms roi unl] obtain st1 where
      u: "update_block env b st = (Inr (), st1)"
      and m: "blockwise_feature_matrices st1 = dict_set b ?E (blockwise_feature_matrices st)"
      and d: "dirty_blocks st1 = removeAll b (dirty_blocks st)"
      and s: "blockshape st1 = Some bs"
      by blast
    have "\<forall>p \<in> set (blockwise_feature_matrices st1).
            (fst p \<in> set todo \<and> fst p \<in> set (dirty_blocks st1)) \<or> snd p = ?E"
      using Cons.prems(4) by (auto simp: m d set_dict_set [OF Cons.prems(2)])
    with u m d s Cons.prems(2) show ?thesis
      by (auto simp: distinct_dict_set dict_set_not_empty)
  next
    case False
    from update_block_clean [OF False, of env] obtain st1 where
      u: "update_block env b st = (Inr (), st1)"
      and m: "blockwise_feature_matrices st1 = blockwise_feature_matrices st"
      and d: "dirty_blocks st1 = dirty_blocks st"
      and s: "blockshape st1 = blockshape st"
      by blast
    have "\<forall>p \<in> set (blockwise_feature_matrices st1).
            (fst p \<in> set todo \<and> fst p \<in> set (dirty_blocks st1)) \<or> snd p = ?E"
      using Cons.prems(4) False by (auto simp: m d)
    with u m d s Cons.prems(1,2) False show ?thesis by auto
  qed
  then obtain st1 where
    u: "update_block env b st = (Inr (), st1)"
    and s1: "blockshape st1 = Some bs"
    and k1: "distinct (map fst (blockwise_feature_matrices st1))"
    and i1: "\<forall>p \<in> set (blockwise_feature_matrices st1).
                (fst p \<in> set todo \<and> fst p \<in> set (dirty_blocks st1)) \<or> snd p = ?E"
    and d1: "set (dirty_blocks st1) = set (dirty_blocks st) - {b}"
    and n1: "blockwise_feature_matrices st \<noteq> [] \<or> b \<in> set (dirty_blocks st)
               \<longrightarrow> blockwise_feature_matrices st1 \<noteq> []"
    by blast
  from Cons.prems(3) have r1: "\<forall>b \<in> set todo. \<exists>block_roi.
        getBlockBounds (meta_shape (LabelImage_in env)) bs b = Inr block_roi
        \<and> unlabeled env block_roi"
    by simp
  from Cons.IH [OF s1 k1 r1 i1] obtain evs st' where
    p: "run_pool env n todo st1 = (evs, [], st')"
    and a: "\<forall>p \<in> set (blockwise_feature_matrices st'). snd p = ?E"
    and d: "set (dirty_blocks st') = set (dirty_blocks st1) - set todo"
    and ne: "blockwise_feature_matrices st1 \<noteq> [] \<or> (\<exists>b \<in> set todo. b \<in> set (dirty_blocks st1))
             \<longrightarrow> blockwise_feature_matrices st' \<noteq> []"
    by blast
  have run: "run_pool env n (b # todo) st = (update_progress n st1 # evs, [], st')"
    using u p by simp
  have dd: "set (dirty_blocks st') = set (dirty_blocks st) - set (b # todo)"
    using d d1 by auto
  have nn: "blockwise_feature_matrices st \<noteq> []
              \<or> (\<exists>c \<in> set (b # todo). c \<in> set (dirty_blocks st))
             \<longrightarrow> blockwise_feature_matrices st' \<noteq> []"
    using n1 ne d1 by auto
  from run a dd nn show ?case by blast
qed

lemma concatenate_empty_matrices:
  assumes "ms \<noteq> []" and "\<forall>m \<in> set ms. m = \<lparr>ncols = c, rows = []\<rparr>"
  shows "concatenate_axis0 ms = Inr \<lparr>ncols = c, rows = []\<rparr>"
proof -
  from assms obtain m ms' where ms: "ms = m # ms'" by (cases ms) auto
  from assms(2) have "concat (map rows ms) = []" by (induction ms) auto
  with assms(2) ms show ?thesis by (auto simp: concatenate_axis0_def)
qed

text \<open>
  Claim C5. After setup, with a feature feed of \<open>K\<close> channels: when the label array
  fetched for a dirty block holds no label other than zero, \<open>_update_block\<close> raises
  nothing, stores for the block the matrix of no rows and \<open>1 + K\<close> columns, and removes
  the block from the dirty set. Hence, when at least one block is dirty, every cached
  block is dirty, and the label array of every dirty block holds zeros only, a read
  returns the matrix of no rows and \<open>1 + K\<close> columns, and leaves no block dirty.
\<close>

theorem unlabeled_blocks_give_empty_matrix:
  assumes "blockshape st = Some bs" and "meta_shape (FeatureImage_in env) \<noteq> []"
  shows "(b \<in> set (dirty_blocks st)
          \<and> getBlockBounds (meta_shape (LabelImage_in env)) bs b = Inr block_roi
          \<and> unlabeled env block_roi
        \<longrightarrow> (\<exists>st'. update_block env b st = (Inr (), st')
               \<and> map_of (blockwise_feature_matrices st') b = Some (empty_block_matrix env)
               \<and> b \<notin> set (dirty_blocks st')))
      \<and> (dirty_blocks st \<noteq> []
          \<and> distinct (dict_keys (blockwise_feature_matrices st))
          \<and> set (dict_keys (blockwise_feature_matrices st)) \<subseteq> set (dirty_blocks st)
          \<and> (\<forall>c \<in> set (dirty_blocks st). \<exists>c_roi.
                getBlockBounds (meta_shape (LabelImage_in env)) bs c = Inr c_roi
                \<and> unlabeled env c_roi)
        \<longrightarrow> (\<exists>evs st'. execute env LabelAndFeatureMatrix st
                           = (evs, Inr (empty_block_matrix env), st')
               \<and> dirty_blocks st' = []))"
proof (intro conjI impI)
  assume h: "b \<in> set (dirty_blocks st)
          \<and> getBlockBounds (meta_shape (LabelImage_in env)) bs b = Inr block_roi
          \<and> unlabeled env block_roi"
  then have 1: "b \<in> set (dirty_blocks st)"
    and 2: "getBlockBounds (meta_shape (LabelImage_in env)) bs b = Inr block_roi"
    and 3: "unlabeled env block_roi"
    by simp_all
  from update_block_unlabeled [OF 1 assms 2 3]
  show "\<exists>st'. update_block env b st = (Inr (), st')
               \<and> map_of (blockwise_feature_matrices st') b = Some (empty_block_matrix env)
               \<and> b \<notin> set (dirty_blocks st')"
    by (auto simp: map_of_dict_set)
next
  let ?E = "empty_block_matrix env"
  let ?n = "set_len (dirty_blocks st)"
  assume h: "dirty_blocks st \<noteq> []
          \<and> distinct (dict_keys (blockwise_feature_matrices st))
          \<and> set (dict_keys (blockwise_feature_matrices st)) \<subseteq> set (dirty_blocks st)
          \<and> (\<forall>c \<in> set (dirty_blocks st). \<exists>c_roi.
                getBlockBounds (meta_shape (LabelImage_in env)) bs c = Inr c_roi
                \<and> unlabeled env c_roi)"
  then have ne: "dirty_blocks st \<noteq> []"
    and dk: "distinct (map fst (blockwise_feature_matrices st))"
    and sub: "set (dict_keys (blockwise_feature_matrices st)) \<subseteq> set (dirty_blocks st)"
    and un: "\<forall>c \<in> set (remdups (dirty_blocks st)). \<exists>c_roi.
                getBlockBounds (meta_shape (LabelImage_in env)) bs c = Inr c_roi
                \<and> unlabeled env c_roi"
    by (simp_all add: dict_keys_def)
  from sub have inv: "\<forall>p \<in> set (blockwise_feature_matrices st).
        (fst p \<in> set (remdups (dirty_blocks st)) \<and> fst p \<in> set (dirty_blocks st))
        \<or> snd p = ?E"
    by (auto simp: dict_keys_def)
  from ne have some: "\<exists>c \<in> set (remdups (dirty_blocks st)). c \<in> set (dirty_blocks st)"
    by (cases "dirty_blocks st") auto
  from run_pool_unlabeled [OF assms(2) assms(1) dk un inv, of ?n] some
  obtain evs st' where
    run: "run_pool env ?n (remdups (dirty_blocks st)) st = (evs, [], st')"
    and all: "\<forall>p \<in> set (blockwise_feature_matrices st'). snd p = ?E"
    and clean: "set (dirty_blocks st') = set (dirty_blocks st) - set (remdups (dirty_blocks st))"
    and full: "blockwise_feature_matrices st' \<noteq> []"
    by blast
  from all have "\<forall>m \<in> set (dict_values (blockwise_feature_matrices st')).
      m = \<lparr>ncols = 1 + last (meta_shape (FeatureImage_in env)), rows = []\<rparr>"
    by (auto simp: dict_values_def empty_block_matrix_def)
  moreover from full have "dict_values (blockwise_feature_matrices st') \<noteq> []"
    by (simp add: dict_values_def)
  ultimately have cat: "concatenate_axis0 (dict_values (blockwise_feature_matrices st')) = Inr ?E"
    unfolding empty_block_matrix_def by (rule concatenate_empty_matrices [rotated])
  have "execute env LabelAndFeatureMatrix st = (0 # evs @ [100], Inr ?E, st')"
    using run cat full by (simp add: execute_def)
  moreover from clean have "dirty_blocks st' = []" by simp
  ultimately show "\<exists>evs st'. execute env LabelAndFeatureMatrix st = (evs, Inr ?E, st')
               \<and> dirty_blocks st' = []"
    by blast
qed

lemma blank_unlabeled: "unlabeled blank_upstream ([0, 0, 0, 0], [10, 10, 10, 1])"
  by code_simp

text \<open>
  A label feed of zeros over 10 x 10 x 10 pixels, with three feature channels: the
  recompute of the one block stores a matrix of no rows and four columns, and so does the
  read return one.
\<close>

theorem unlabeled_blocks_give_empty_matrix_witness:
  "(\<exists>st'. update_block blank_upstream [0, 0, 0, 0] blank_dirty = (Inr (), st')
       \<and> map_of (blockwise_feature_matrices st') [0, 0, 0, 0] = Some \<lparr>ncols = 4, rows = []\<rparr>
       \<and> [0, 0, 0, 0] \<notin> set (dirty_blocks st'))
   \<and> (\<exists>evs st'. execute blank_upstream LabelAndFeatureMatrix blank_dirty
                     = (evs, Inr \<lparr>ncols = 4, rows = []\<rparr>, st')
       \<and> dirty_blocks st' = [])"
proof -
  have 1: "blockshape blank_dirty = Some [10, 10, 10, 1]"
    by (simp add: blank_dirty_def init_state_def)
  have 2: "meta_shape (FeatureImage_in blank_upstream) \<noteq> []"
    by (simp add: blank_upstream_def array_feed_def)
  have 3: "getBlockBounds (meta_shape (LabelImage_in blank_upstream)) [10, 10, 10, 1]
             [0, 0, 0, 0] = Inr ([0, 0, 0, 0], [10, 10, 10, 1])"
    by (simp add: getBlockBounds_def blank_upstream_def array_feed_def)
  have 4: "dirty_blocks blank_dirty = [[0, 0, 0, 0]]"
    and 5: "blockwise_feature_matrices blank_dirty = []"
    by (simp_all add: blank_dirty_def init_state_def)
  have 6: "empty_block_matrix blank_upstream = \<lparr>ncols = 4, rows = []\<rparr>"
    by (simp add: empty_block_matrix_def blank_upstream_def array_feed_def)
  from unlabeled_blocks_give_empty_matrix [OF 1 2, of "[0, 0, 0, 0]"
      "([0, 0, 0, 0], [10, 10, 10, 1])"] 3 4 5 6 blank_unlabeled
  show ?thesis by (simp add: dict_keys_def)
qed

subsection \<open>Labels in a block that does not start at the origin\<close>

lemma indices_nth:
  assumes "p \<in> set (indices shp)"
  shows "length p = length shp" and "k < length shp \<Longrightarrow> p ! k < shp ! k"
proof -
  from assms have a: "list_all2 (\<lambda>x ys. x \<in> set ys) p (map (\<lambda>n. [0..<n]) shp)"
    by (simp add: indices_def product_lists_set)
  then show l: "length p = length shp" by (auto dest: list_all2_lengthD)
  show "p ! k < shp ! k" if "k < length shp"
    using a that l by (auto simp: list_all2_conv_all_nth)
qed

lemma map_over_nth: "map (\<lambda>i. g (xs ! i)) [0..<length xs] = map g xs"
proof -
  have "map (\<lambda>i. g (xs ! i)) [0..<length xs] = map g (map ((!) xs) [0..<length xs])"
    by (simp add: comp_def)
  then show ?thesis by (simp only: map_nth)
qed

lemma points_of_axes:
  assumes "0 < n"
  shows "points_of (map (\<lambda>k. map (\<lambda>p. f k (p ! k)) pts) [0..<n])
           = map (\<lambda>p. map (\<lambda>k. f k (p ! k)) [0..<n]) pts"
proof -
  let ?axes = "map (\<lambda>k. map (\<lambda>p. f k (p ! k)) pts) [0..<n]"
  from assms have "?axes = map (\<lambda>p. f 0 (p ! 0)) pts # tl ?axes"
    by (simp add: upt_conv_Cons)
  then obtain axs where c: "?axes = map (\<lambda>p. f 0 (p ! 0)) pts # axs" ..
  have "points_of ?axes = map (\<lambda>i. map (\<lambda>a. a ! i) ?axes) [0..<length pts]"
    unfolding points_of_def by (subst (2) c) simp
  also have "\<dots> = map (\<lambda>i. (\<lambda>p. map (\<lambda>k. f k (p ! k)) [0..<n]) (pts ! i)) [0..<length pts]"
    by (rule map_cong) (auto simp: comp_def)
  also have "\<dots> = map (\<lambda>p. map (\<lambda>k. f k (p ! k)) [0..<n]) pts"
    by (rule map_over_nth)
  finally show ?thesis .
qed

text \<open>
  What \<open>_extract_feature_matrix\<close> returns for two arrays held in memory and a label
  roi inside them, with at least one axis beside the channel axis: one row per point \<open>p\<close>
  of the block (relative to the start of the block, in row-major order) whose label is not
  zero. The label of the row is read at \<open>start + p\<close>; its features are read at \<open>p\<close>.
\<close>

lemma extract_feature_matrix_array_feed:
  fixes start stop sp :: "nat list" and K :: nat
    and feat :: "nat list \<Rightarrow> real" and lab :: "nat list \<Rightarrow> nat"
    and axF axL :: string
  assumes len: "length start = length sp" "length stop = length sp" "sp \<noteq> []"
    and le1: "list_all2 (\<le>) start stop" and le2: "list_all2 (\<le>) stop sp"
  defines "env \<equiv> \<lparr>FeatureImage_in = array_feed axF (sp @ [K]) feat,
                       LabelImage_in = array_feed axL (sp @ [1]) lab\<rparr>"
  defines "pts \<equiv> filter (\<lambda>p. lab (map2 (+) start p @ [0]) \<noteq> 0)
                   (indices (map2 (-) stop start))"
  shows "extract_feature_matrix env (start @ [0], stop @ [1])
     = Inr \<lparr>ncols = 1 + K,
            rows = map (\<lambda>p. real (lab (map2 (+) start p @ [0]))
                           # map (\<lambda>c. feat (p @ [c])) [0..<K]) pts\<rparr>"
proof -
  let ?n = "length sp"
  let ?shp = "map2 (-) stop start"
  let ?labels = "\<lambda>idx. lab (map2 (+) (start @ [0]) idx)"
  from len have n: "0 < ?n" by simp
  have shp_len: "length ?shp = ?n" using len by simp
  have F: "meta_shape (FeatureImage_in env) = sp @ [K]"
    by (simp add: env_def array_feed_def)
  have wl: "wait (LabelImage_in env) (start @ [0]) (stop @ [1]) = Inr ?labels"
    using len le1 le2 by (simp add: env_def array_feed_def list_all2_appendI)
  have lshape: "map2 (-) (stop @ [1]) (start @ [0]) = ?shp @ [1]"
    using len by simp
  have pl: "length p = ?n" if "p \<in> set pts" for p
    using that indices_nth(1) [of p ?shp] shp_len by (simp add: pts_def)
  have pb: "p ! k < stop ! k - start ! k" if "p \<in> set pts" "k < ?n" for p k
    using that indices_nth(2) [of p ?shp k] shp_len len by (simp add: pts_def)
  have filt: "filter (\<lambda>p. ?labels (p @ [0]) \<noteq> 0) (indices ?shp) = pts"
    unfolding pts_def
  proof (rule filter_cong [OF refl])
    fix p assume "p \<in> set (indices ?shp)"
    then have "length p = length start" using indices_nth(1) [of p ?shp] len by simp
    then show "(?labels (p @ [0]) \<noteq> 0) = (lab (map2 (+) start p @ [0]) \<noteq> 0)"
      by simp
  qed
  let ?pos = "map (\<lambda>k. map (\<lambda>p. p ! k) pts) [0..<?n]"
  have nz: "numpy_nonzero ?shp (\<lambda>p. ?labels (p @ [0])) = ?pos"
  proof -
    have "?shp \<noteq> []" using len by auto
    then show ?thesis
      unfolding numpy_nonzero_def Let_def filt by (simp only: if_False shp_len)
  qed
  have lab_rows: "take_points (\<lambda>p. real (?labels p)) 1 ?pos
      = map (\<lambda>p. [real (lab (map2 (+) start p @ [0]))]) pts"
  proof -
    have "points_of ?pos = map (\<lambda>p. map (\<lambda>k. p ! k) [0..<?n]) pts"
      using points_of_axes [OF n, of "\<lambda>k x. x" pts] .
    also have "\<dots> = map (\<lambda>p. p) pts"
    proof (rule map_cong [OF refl])
      fix p assume "p \<in> set pts"
      then have "length p = ?n" by (rule pl)
      then show "map (\<lambda>k. p ! k) [0..<?n] = p" using map_nth [of p] by simp
    qed
    finally have po: "points_of ?pos = pts" by simp
    show ?thesis
      unfolding take_points_def po
      by (rule map_cong [OF refl]) (use pl len in \<open>auto\<close>)
  qed
  have hd_pos: "hd ?pos = map (\<lambda>p. p ! 0) pts"
    using n by (simp add: hd_map upt_conv_Cons)
  have len_pos: "length ?pos = ?n" by simp
  define m where "m k = Min ((\<lambda>p. p ! k) ` set pts)" for k
  define M where "M k = Max ((\<lambda>p. p ! k) ` set pts)" for k
  let ?bs = "map m [0..<?n]"
  let ?be = "map (\<lambda>k. 1 + M k) [0..<?n]"
  have bs: "map (\<lambda>ax. Min (set ax)) ?pos = ?bs"
    by (simp add: m_def comp_def)
  have be: "map (\<lambda>ax. 1 + Max (set ax)) ?pos = ?be"
    by (simp add: M_def comp_def)
  let ?fp = "map (\<lambda>k. map (\<lambda>p. p ! k - m k) pts) [0..<?n]"
  have fp: "map2 (\<lambda>ax s. map (\<lambda>x. x - s) ax) ?pos ?bs = ?fp"
    by (simp add: zip_map_map zip_same_conv_map comp_def)
  show ?thesis
  proof (cases "pts = []")
    case True
    with hd_pos have h0: "length (hd ?pos) = 0" by simp
    have shp_ne: "?shp \<noteq> []" using len by auto
    show ?thesis
      unfolding extract_feature_matrix_def Let_def fst_conv snd_conv F wl lshape
        butlast_snoc last_snoc nz sum.case
      using True h0 by simp
  next
    case False
    have m_le: "m k \<le> p ! k" if "p \<in> set pts" for p k
      using that by (simp add: m_def)
    have M_lt: "M k < stop ! k - start ! k" if "k < ?n" for k
    proof -
      from False have "M k \<in> (\<lambda>p. p ! k) ` set pts"
        unfolding M_def by (intro Max_in) auto
      then obtain p where "p \<in> set pts" "M k = p ! k" by auto
      with pb [OF _ that] show ?thesis by simp
    qed
    have m_le_M: "m k \<le> M k" for k
    proof -
      from False obtain p where p: "p \<in> set pts" by (cases pts) auto
      then have "m k \<le> p ! k" and "p ! k \<le> M k" by (simp_all add: m_def M_def)
      then show ?thesis by simp
    qed
    have stop_le: "stop ! k \<le> sp ! k" if "k < ?n" for k
      using le2 that len by (simp add: list_all2_conv_all_nth)
    have b1: "list_all2 (\<le>) ?bs ?be"
      using m_le_M by (simp add: list_all2_conv_all_nth le_SucI)
    have b2: "list_all2 (\<le>) ?be sp"
      unfolding list_all2_conv_all_nth
    proof (intro conjI allI impI)
      show "length ?be = length sp" by simp
      fix k assume "k < length ?be"
      then have k: "k < ?n" by simp
      from M_lt [OF k] stop_le [OF k] have "1 + M k \<le> sp ! k" by simp
      with k show "?be ! k \<le> sp ! k" by simp
    qed
    let ?features = "\<lambda>idx. feat (map2 (+) (?bs @ [0]) idx)"
    have wf: "wait (FeatureImage_in env) (?bs @ [0]) (?be @ [K]) = Inr ?features"
      using b1 b2 by (simp add: env_def array_feed_def list_all2_appendI)
    have feat_rows: "take_points ?features K ?fp
        = map (\<lambda>p. map (\<lambda>c. feat (p @ [c])) [0..<K]) pts"
    proof -
      have po: "points_of ?fp = map (\<lambda>p. map (\<lambda>k. p ! k - m k) [0..<?n]) pts"
        using points_of_axes [OF n, of "\<lambda>k x. x - m k" pts] .
      have restore: "map2 (+) ?bs (map (\<lambda>k. p ! k - m k) [0..<?n]) = p" if "p \<in> set pts" for p
      proof -
        have "map2 (+) ?bs (map (\<lambda>k. p ! k - m k) [0..<?n])
            = map (\<lambda>k. m k + (p ! k - m k)) [0..<?n]"
          by (simp add: zip_map_map zip_same_conv_map comp_def)
        also have "\<dots> = map (\<lambda>k. p ! k) [0..<?n]"
          by (rule map_cong [OF refl]) (use m_le [OF that] in simp)
        also have "\<dots> = p" using pl [OF that] map_nth [of p] by simp
        finally show ?thesis .
      qed
      show ?thesis
        unfolding take_points_def po map_map comp_def
      proof (rule map_cong [OF refl])
        fix p assume p: "p \<in> set pts"
        show "map (\<lambda>ch. ?features (map (\<lambda>k. p ! k - m k) [0..<?n] @ [ch])) [0..<K]
            = map (\<lambda>c. feat (p @ [c])) [0..<K]"
          using restore [OF p] by simp
      qed
    qed
    have cat: "concatenate_axis1
          \<lparr>ncols = 1, rows = map (\<lambda>p. [real (lab (map2 (+) start p @ [0]))]) pts\<rparr>
          \<lparr>ncols = K, rows = map (\<lambda>p. map (\<lambda>c. feat (p @ [c])) [0..<K]) pts\<rparr>
        = Inr \<lparr>ncols = 1 + K,
               rows = map (\<lambda>p. real (lab (map2 (+) start p @ [0]))
                              # map (\<lambda>c. feat (p @ [c])) [0..<K]) pts\<rparr>"
      by (simp add: concatenate_axis1_def zip_map_map zip_same_conv_map comp_def)
    have shp_ne: "?shp \<noteq> []" using len by auto
    show ?thesis
      unfolding extract_feature_matrix_def Let_def fst_conv snd_conv F wl lshape
        butlast_snoc last_snoc nz sum.case bs be fp
      using False shp_ne len(3)
      by (simp add: hd_pos wf feat_rows lab_rows cat del: upt_Suc One_nat_def)
  qed
qed

text \<open>
  For a block that starts at the origin the two positions are the same, and the rows are
  the labels and the features of exactly the labeled points of the block.
\<close>

lemma map2_replicate_zero:
  "length (p :: nat list) = n \<Longrightarrow> map2 (+) (replicate n 0) p = p"
  "length (p :: nat list) = n \<Longrightarrow> map2 (-) p (replicate n 0) = p"
  by (induction p arbitrary: n) auto

lemma extract_feature_matrix_origin_block:
  fixes stop sp :: "nat list" and K :: nat
    and feat :: "nat list \<Rightarrow> real" and lab :: "nat list \<Rightarrow> nat"
    and axF axL :: string
  assumes "length stop = length sp" and "sp \<noteq> []" and "list_all2 (\<le>) stop sp"
  shows "extract_feature_matrix
           \<lparr>FeatureImage_in = array_feed axF (sp @ [K]) feat,
            LabelImage_in = array_feed axL (sp @ [1]) lab\<rparr>
           (replicate (length sp) 0 @ [0], stop @ [1])
     = Inr \<lparr>ncols = 1 + K,
            rows = map (\<lambda>p. real (lab (p @ [0])) # map (\<lambda>c. feat (p @ [c])) [0..<K])
                     (filter (\<lambda>p. lab (p @ [0]) \<noteq> 0) (indices stop))\<rparr>"
proof -
  let ?z = "replicate (length sp) (0::nat)"
  have z: "list_all2 (\<le>) ?z stop"
    using assms(1) by (simp add: list_all2_conv_all_nth)
  have shp: "map2 (-) stop ?z = stop"
    using assms(1) by (simp add: map2_replicate_zero)
  have same: "map2 (+) ?z p = p" if "p \<in> set (indices stop)" for p
    using indices_nth(1) [OF that] assms(1) by (simp add: map2_replicate_zero)
  have f: "filter (\<lambda>p. lab (map2 (+) ?z p @ [0]) \<noteq> 0) (indices stop)
         = filter (\<lambda>p. lab (p @ [0]) \<noteq> 0) (indices stop)"
    by (rule filter_cong [OF refl]) (simp add: same)
  have r: "map (\<lambda>p. real (lab (map2 (+) ?z p @ [0])) # map (\<lambda>c. feat (p @ [c])) [0..<K])
             (filter (\<lambda>p. lab (p @ [0]) \<noteq> 0) (indices stop))
         = map (\<lambda>p. real (lab (p @ [0])) # map (\<lambda>c. feat (p @ [c])) [0..<K])
             (filter (\<lambda>p. lab (p @ [0]) \<noteq> 0) (indices stop))"
    by (rule map_cong [OF refl]) (simp add: same)
  from extract_feature_matrix_array_feed [of ?z sp stop axF K feat axL lab, OF _ assms(1,2) z assms(3)]
  show ?thesis unfolding shp f r by simp
qed

text \<open>
  Claim C1. In the small instance the one labeled pixel is pixel 2, in the block that
  starts at 2; its label is 1 and its feature value is 20. After both blocks were marked
  dirty, the read returns the single row (1, 0): the label of pixel 2 with the feature
  value of pixel 0, since the bounding box of the labels, which is relative to the start
  of the block, is used as it is for the roi of the feature request.
\<close>

theorem features_read_at_block_relative_position:
  "example_labels [2, 0] = 1
   \<and> example_features [2, 0] = 20
   \<and> example_features [0, 0] = 0
   \<and> extract_feature_matrix example_upstream ([2, 0], [4, 1])
       = Inr \<lparr>ncols = 2, rows = [[1, 0]]\<rparr>
   \<and> fst (snd (execute example_upstream LabelAndFeatureMatrix example_dirty))
       = Inr \<lparr>ncols = 2, rows = [[1, 0]]\<rparr>"
proof -
  have "extract_feature_matrix example_upstream ([2, 0], [4, 1])
       = Inr \<lparr>ncols = 2, rows = [[1, 0]]\<rparr>"
    by code_simp
  then show ?thesis
    by (simp add: example_read example_labels_def example_features_def)
qed

end
